theory Spec2Isabelle
  imports Main "HOL-Library.Word" "HOL-Library.Finite_Map"
begin

section \<open>Data model of package turing\<close>

text \<open>
  A \<open>rune\<close> is Go's \<open>int32\<close>; only equality is ever used on it outside the UTF-8
  decoder. Strings are byte sequences, as in Go.
\<close>

type_synonym rune = "32 word"

definition rune_of :: "char \<Rightarrow> rune" where
  "rune_of c = of_nat (of_char c)"

definition blank :: rune where
  "blank = rune_of CHR '' ''"

text \<open>\<open>type Direction int\<close> with the three named constants.\<close>

type_synonym Direction = int

definition Left :: Direction where "Left = - 1"
definition Right :: Direction where "Right = 1"
definition Stay :: Direction where "Stay = 0"

record Transition =
  NextState :: string
  Move :: Direction
  Write :: rune

text \<open>\<open>type Program map[string]map[rune]Transition\<close>.\<close>

type_synonym Program = "string \<rightharpoonup> (rune \<rightharpoonup> Transition)"

text \<open>
  Errors are modelled by their kind, the sentinel that \<open>errors.Is\<close> discriminates; the
  formatted context of \<open>fmt.Errorf\<close> is dropped. \<open>ErrCancelled\<close> stands for the value
  of \<open>ctx.Err()\<close>, \<open>ErrReadProgram\<close> for a wrapped scanner error.
\<close>

datatype error =
    ErrStartStateEmpty
  | ErrTerminalStateEmpty
  | ErrInvalidMaxTapeLength
  | ErrInvalidMoveDirection
  | ErrStateNotFound
  | ErrTransitionNotFound
  | ErrInfiniteLoop
  | ErrStepsExceeded
  | ErrUnexpectedSymbol
  | ErrTapeOver
  | ErrParseTransition
  | ErrNoTransitions
  | ErrCancelled
  | ErrReadProgram

subsection \<open>Map objects and references\<close>

text \<open>
  A Go map value is a reference to a map object. The tape maps live in an explicit
  store: \<open>maps h a\<close> is the content of the object at address \<open>a\<close>, and the addresses
  below \<open>brk h\<close> are the allocated ones. \<open>make_map\<close> is \<open>make(map[int]rune)\<close>.
  Nil maps are not modelled: a caller passing a nil input passes the address of an
  empty map, which reads the same.
\<close>

type_synonym addr = nat

type_synonym tape_map = "(int, rune) fmap"

record store =
  maps :: "addr \<Rightarrow> tape_map"
  brk :: addr

definition make_map :: "store \<Rightarrow> store \<times> addr" where
  "make_map h = (h\<lparr>maps := (maps h)(brk h := fmempty), brk := Suc (brk h)\<rparr>, brk h)"

definition len :: "tape_map \<Rightarrow> nat" where
  "len t = fcard (fmdom t)"

text \<open>
  The \<open>Machine\<close> struct. \<open>carriage\<close> is a Go \<open>int\<close> and \<open>steps\<close> a \<open>uint\<close>, taken at
  64 bits with the wrap-around written out; the alphabet \<open>map[rune]struct{}\<close> is only
  ever tested for membership and is a set.
\<close>

record Machine =
  carriage :: int
  tape :: addr
  state :: string
  startState :: string
  terminalState :: string
  alphabet :: "rune set"
  program :: Program
  steps :: nat
  maxTapeLength :: nat
  maxSteps :: nat

definition wrap_int :: "int \<Rightarrow> int" where
  "wrap_int x = (x + 2 ^ 63) mod 2 ^ 64 - 2 ^ 63"

definition wrap_uint :: "nat \<Rightarrow> nat" where
  "wrap_uint x = x mod 2 ^ 64"

section \<open>The execution engine\<close>

definition read :: "store \<Rightarrow> Machine \<Rightarrow> rune" where
  "read h m = (case fmlookup (maps h (tape m)) (carriage m) of
                 Some symb \<Rightarrow> symb
               | None \<Rightarrow> blank)"

text \<open>\<open>write\<close> of the source (the name is an Isar keyword).\<close>

definition write_tape :: "store \<Rightarrow> Machine \<Rightarrow> rune \<Rightarrow> store" where
  "write_tape h m symb = h\<lparr>maps := (maps h)(tape m := fmupd (carriage m) symb (maps h (tape m)))\<rparr>"

definition move :: "Machine \<Rightarrow> Direction \<Rightarrow> Machine" where
  "move m d = m\<lparr>carriage := wrap_int (carriage m + d)\<rparr>"

text \<open>\<open>m.program[m.state][sym]\<close>: a missing state gives a nil inner map, which has no entry.\<close>

definition lookup_transition :: "Program \<Rightarrow> string \<Rightarrow> rune \<Rightarrow> Transition option" where
  "lookup_transition p s symb = (case p s of None \<Rightarrow> None | Some ts \<Rightarrow> ts symb)"

text \<open>
  \<open>step\<close> returns \<open>(bool, error)\<close> and mutates the machine and its tape: \<open>Inr True\<close> is
  \<open>(true, nil)\<close>, \<open>Inr False\<close> is \<open>(false, nil)\<close>, \<open>Inl e\<close> is \<open>(false, e)\<close>.
\<close>

definition step :: "store \<Rightarrow> Machine \<Rightarrow> store \<times> Machine \<times> (error + bool)" where
  "step h m =
     (if state m = terminalState m then (h, m, Inr False)
      else
        let symb = read h m in
        if symb \<notin> alphabet m then (h, m, Inl ErrUnexpectedSymbol)
        else
          case lookup_transition (program m) (state m) symb of
            None \<Rightarrow> (h, m, Inl ErrTransitionNotFound)
          | Some transition \<Rightarrow>
              if Move transition = Stay \<and> NextState transition = state m
                 \<and> Write transition = symb
              then (h, m, Inl ErrInfiniteLoop)
              else
                let h' = write_tape h m (Write transition);
                    m' = (move m (Move transition))
                           \<lparr>state := NextState transition,
                            steps := wrap_uint (steps m + 1)\<rparr>
                in
                  if len (maps h' (tape m')) \<ge> maxTapeLength m'
                  then (h', m', Inl ErrTapeOver)
                  else if maxSteps m' > 0 \<and> steps m' \<ge> maxSteps m'
                  then (h', m', Inl ErrStepsExceeded)
                  else (h', m', Inr True))"

text \<open>
  The context is the number of the first check at which \<open>ctx.Err()\<close> is not nil
  (cancellation is permanent); \<open>None\<close> is a context that is never cancelled, such as
  \<open>context.Background()\<close>.
\<close>

type_synonym ctx = "nat option"

definition ctx_Err :: "ctx \<Rightarrow> nat \<Rightarrow> bool" where
  "ctx_Err c k = (case c of None \<Rightarrow> False | Some n \<Rightarrow> n \<le> k)"

text \<open>
  The \<open>for ok\<close> loop of \<open>ExecCtx\<close>; \<open>k\<close> counts the checks of the context. The loop
  need not terminate, so not returning is \<open>None\<close>. A returned \<open>Inl e\<close> is \<open>(nil, e)\<close>,
  a returned \<open>Inr a\<close> is \<open>(m.tape, nil)\<close>.
\<close>

partial_function (option) ExecLoop ::
  "ctx \<Rightarrow> nat \<Rightarrow> store \<Rightarrow> Machine \<Rightarrow> (store \<times> Machine \<times> (error + addr)) option" where
  "ExecLoop c k h m =
     (if ctx_Err c k then Some (h, m, Inl ErrCancelled)
      else
        case step h m of
          (h', m', Inl err) \<Rightarrow> Some (h', m', Inl err)
        | (h', m', Inr ok) \<Rightarrow>
            if ok then ExecLoop c (Suc k) h' m' else Some (h', m', Inr (tape m')))"

definition ExecCtx ::
  "ctx \<Rightarrow> store \<Rightarrow> Machine \<Rightarrow> int \<Rightarrow> addr \<Rightarrow> (store \<times> Machine \<times> (error + addr)) option" where
  "ExecCtx c h m carriage0 input =
     (let m1 = m\<lparr>carriage := carriage0, state := startState m, steps := 0\<rparr>;
          (h1, t) = make_map h;
          h2 = h1\<lparr>maps := (maps h1)(t := maps h1 input)\<rparr>;
          m2 = m1\<lparr>tape := t\<rparr>
      in ExecLoop c 0 h2 m2)"

definition Exec ::
  "store \<Rightarrow> Machine \<Rightarrow> int \<Rightarrow> addr \<Rightarrow> (store \<times> Machine \<times> (error + addr)) option" where
  "Exec h m carriage0 input = ExecCtx None h m carriage0 input"

text \<open>
  The store and the machine with which \<open>ExecCtx\<close> enters its loop: the fresh tape
  holds a copy of the input, and the machine is reset and refers to that tape.
\<close>

definition start_store :: "store \<Rightarrow> addr \<Rightarrow> store" where
  "start_store h input =
     (fst (make_map h))\<lparr>maps := (maps (fst (make_map h)))(brk h := maps (fst (make_map h)) input)\<rparr>"

definition start_machine :: "store \<Rightarrow> Machine \<Rightarrow> int \<Rightarrow> Machine" where
  "start_machine h m c0 = m\<lparr>carriage := c0, state := startState m, steps := 0, tape := brk h\<rparr>"

text \<open>
  What a run that returns \<open>y\<close> from the store \<open>h\<close> and the machine \<open>m\<close> has done to
  the store: the machine still refers to the same tape object, nothing was allocated,
  no other map object was written, the tape has kept all its cells, and a returned
  tape is the machine's own.
\<close>

definition run_inv :: "store \<Rightarrow> Machine \<Rightarrow> store \<times> Machine \<times> (error + addr) \<Rightarrow> bool" where
  "run_inv h m y \<longleftrightarrow>
     tape (fst (snd y)) = tape m \<and> brk (fst y) = brk h \<and>
     (\<forall>a. a \<noteq> tape m \<longrightarrow> maps (fst y) a = maps h a) \<and>
     fmdom (maps h (tape m)) |\<subseteq>| fmdom (maps (fst y) (tape m)) \<and>
     (\<forall>a. snd (snd y) = Inr a \<longrightarrow> a = tape m)"

section \<open>Program validation and machine construction\<close>

text \<open>
  The body of the inner loop of \<open>Program.Validate\<close> for one transition: \<open>None\<close> is
  falling through to the next entry, \<open>Some e\<close> is \<open>return e\<close>.
\<close>

definition check_transition :: "Program \<Rightarrow> rune set \<Rightarrow> string \<Rightarrow> Transition \<Rightarrow> error option" where
  "check_transition tp alph terminal transition =
     (if Move transition \<noteq> Left \<and> Move transition \<noteq> Right \<and> Move transition \<noteq> Stay
      then Some ErrInvalidMoveDirection
      else if Write transition \<notin> alph then Some ErrUnexpectedSymbol
      else if NextState transition = terminal then None
      else if tp (NextState transition) = None then Some ErrStateNotFound
      else None)"

text \<open>
  Go leaves the order of \<open>range\<close> over a map unspecified. The order the runtime picks
  is an argument of the model: for the outer loop the states in the order visited,
  each with the order in which the symbols of its inner map are visited.
\<close>

type_synonym range_order = "(string \<times> rune list) list"

fun Validate_symbols ::
  "Program \<Rightarrow> rune set \<Rightarrow> string \<Rightarrow> (rune \<rightharpoonup> Transition) \<Rightarrow> rune list \<Rightarrow> error option" where
  "Validate_symbols tp alph terminal stateTransitions [] = None"
| "Validate_symbols tp alph terminal stateTransitions (symbol # rest) =
     (case stateTransitions symbol of
        None \<Rightarrow> Validate_symbols tp alph terminal stateTransitions rest
      | Some transition \<Rightarrow>
          (case check_transition tp alph terminal transition of
             Some err \<Rightarrow> Some err
           | None \<Rightarrow> Validate_symbols tp alph terminal stateTransitions rest))"

fun Validate_states :: "Program \<Rightarrow> rune set \<Rightarrow> string \<Rightarrow> range_order \<Rightarrow> error option" where
  "Validate_states tp alph terminal [] = None"
| "Validate_states tp alph terminal ((st, symbols) # rest) =
     (case tp st of
        None \<Rightarrow> Validate_states tp alph terminal rest
      | Some stateTransitions \<Rightarrow>
          (case Validate_symbols tp alph terminal stateTransitions symbols of
             Some err \<Rightarrow> Some err
           | None \<Rightarrow> Validate_states tp alph terminal rest))"

definition Validate :: "range_order \<Rightarrow> Program \<Rightarrow> rune set \<Rightarrow> string \<Rightarrow> error option" where
  "Validate ord tp alph terminal = Validate_states tp alph terminal ord"

text \<open>
  An order is one the runtime can pick when it visits every key of the program once,
  and with each state every key of its inner map once.
\<close>

definition range_of :: "Program \<Rightarrow> range_order \<Rightarrow> bool" where
  "range_of tp ord \<longleftrightarrow>
     distinct (map fst ord) \<and> set (map fst ord) = dom tp \<and>
     (\<forall>(st, symbols) \<in> set ord.
        distinct symbols \<and> (\<exists>ts. tp st = Some ts \<and> set symbols = dom ts))"

subsection \<open>UTF-8 decoding\<close>

text \<open>
  \<open>utf8.DecodeRuneInString\<close> of the Go standard library: the first code point of the
  string and its width in bytes; \<open>(RuneError, 0)\<close> for the empty string and
  \<open>(RuneError, 1)\<close> for an invalid encoding.
\<close>

definition RuneError :: rune where
  "RuneError = 0xFFFD"

definition continuation :: "nat \<Rightarrow> bool" where
  "continuation b \<longleftrightarrow> 0x80 \<le> b \<and> b \<le> 0xBF"

fun DecodeRuneInString :: "string \<Rightarrow> rune \<times> nat" where
  "DecodeRuneInString [] = (RuneError, 0)"
| "DecodeRuneInString (c0 # s) =
     (let s0 = (of_char c0 :: nat) in
      if s0 < 0x80 then (of_nat s0, 1)
      else if s0 < 0xC2 \<or> 0xF4 < s0 then (RuneError, 1)
      else
        let sz = (if s0 < 0xE0 then 2 else if s0 < 0xF0 then 3 else 4 :: nat);
            lo = (if s0 = 0xE0 then 0xA0 else if s0 = 0xF0 then 0x90 else 0x80 :: nat);
            hi = (if s0 = 0xED then 0x9F else if s0 = 0xF4 then 0x8F else 0xBF :: nat);
            bs = map of_char s :: nat list
        in
          if length bs + 1 < sz then (RuneError, 1)
          else if bs ! 0 < lo \<or> hi < bs ! 0 then (RuneError, 1)
          else if sz = 2 then (of_nat ((s0 mod 0x20) * 0x40 + bs ! 0 mod 0x40), 2)
          else if \<not> continuation (bs ! 1) then (RuneError, 1)
          else if sz = 3
          then (of_nat ((s0 mod 0x10) * 0x1000 + (bs ! 0 mod 0x40) * 0x40 + bs ! 1 mod 0x40), 3)
          else if \<not> continuation (bs ! 2) then (RuneError, 1)
          else (of_nat ((s0 mod 0x08) * 0x40000 + (bs ! 0 mod 0x40) * 0x1000
                        + (bs ! 1 mod 0x40) * 0x40 + bs ! 2 mod 0x40), 4))"

text \<open>\<open>for _, sym := range s\<close> over a string: the successive code points.\<close>

function runes :: "string \<Rightarrow> rune list" where
  "runes [] = []"
| "runes (c # s) =
     fst (DecodeRuneInString (c # s)) # runes (drop (snd (DecodeRuneInString (c # s))) (c # s))"
  by pat_completeness auto
termination
proof (relation "measure length")
  show "wf (measure length)" by simp
next
  fix c :: char and s :: string
  have "0 < snd (DecodeRuneInString (c # s))"
    by (simp add: Let_def)
  then show "(drop (snd (DecodeRuneInString (c # s))) (c # s), c # s) \<in> measure length"
    by (cases "snd (DecodeRuneInString (c # s))") simp_all
qed

text \<open>
  \<open>NewMachine\<close>. The fields not listed in the composite literal have their zero value.
\<close>

definition NewMachine ::
  "range_order \<Rightarrow> store \<Rightarrow> string \<Rightarrow> string \<Rightarrow> string \<Rightarrow> Program \<Rightarrow> nat \<Rightarrow> nat
     \<Rightarrow> store \<times> (error + Machine)" where
  "NewMachine ord h alph start terminal prog maxTape maxStep =
     (let a = insert blank (set (runes alph)) in
      if start = [] then (h, Inl ErrStartStateEmpty)
      else if terminal = [] then (h, Inl ErrTerminalStateEmpty)
      else if maxTape = 0 then (h, Inl ErrInvalidMaxTapeLength)
      else
        case Validate ord prog a terminal of
          Some err \<Rightarrow> (h, Inl err)
        | None \<Rightarrow>
            let (h', t) = make_map h in
            (h', Inr \<lparr>carriage = 0, tape = t, state = [], startState = start,
                      terminalState = terminal, alphabet = a, program = prog, steps = 0,
                      maxTapeLength = maxTape, maxSteps = maxStep\<rparr>))"


section \<open>The program parser (package filereader)\<close>

text \<open>
  \<open>strings.ContainsRune\<close> for a rune below \<open>0x80\<close>, \<open>strings.Split\<close> for a
  separator of one byte and \<open>strings.Join\<close>, on byte strings.
\<close>

definition ContainsRune :: "string \<Rightarrow> char \<Rightarrow> bool" where
  "ContainsRune s r \<longleftrightarrow> r \<in> set s"

fun Split :: "string \<Rightarrow> char \<Rightarrow> string list" where
  "Split [] sep = [[]]"
| "Split (c # s) sep =
     (if c = sep then [] # Split s sep
      else case Split s sep of
             f # fs \<Rightarrow> (c # f) # fs
           | [] \<Rightarrow> [[c]])"

fun Join :: "string list \<Rightarrow> string \<Rightarrow> string" where
  "Join [] sep = []"
| "Join [x] sep = x"
| "Join (x # y # xs) sep = x @ sep @ Join (y # xs) sep"

text \<open>
  The \<open>directionTable\<close> of \<open>ParseTransition\<close> is a map, and the function returns from
  inside a \<open>range\<close> over it; the order in which the runtime visits the three entries
  is the first argument.
\<close>

definition directionTable :: "(char \<times> Direction) list" where
  "directionTable = [(CHR ''>'', Right), (CHR ''<'', Left), (CHR ''.'', Stay)]"

definition table_range :: "(char \<times> Direction) list \<Rightarrow> bool" where
  "table_range ord \<longleftrightarrow> distinct ord \<and> set ord = set directionTable"

fun ParseTransition :: "(char \<times> Direction) list \<Rightarrow> string \<Rightarrow> error + Transition" where
  "ParseTransition [] field = Inl ErrParseTransition"
| "ParseTransition ((sep, dir) # rest) field =
     (if ContainsRune field sep then
        let fields = Split field sep in
        if length fields \<noteq> 2 \<or> fields ! 0 = [] \<or> fields ! 1 = []
        then Inl ErrParseTransition
        else
          let w = fst (DecodeRuneInString (fields ! 0)) in
          Inr \<lparr>NextState = ''Q'' @ fields ! 1, Move = dir,
               Write = (if w = rune_of CHR ''_'' then blank else w)\<rparr>
      else ParseTransition rest field)"

text \<open>The body of the loop of \<open>ParseTransition\<close> for the separator it splits at.\<close>

definition parse_at :: "char \<Rightarrow> Direction \<Rightarrow> string \<Rightarrow> error + Transition" where
  "parse_at sep dir field =
     (let fields = Split field sep in
      if length fields \<noteq> 2 \<or> fields ! 0 = [] \<or> fields ! 1 = []
      then Inl ErrParseTransition
      else
        let w = fst (DecodeRuneInString (fields ! 0)) in
        Inr \<lparr>NextState = ''Q'' @ fields ! 1, Move = dir,
             Write = (if w = rune_of CHR ''_'' then blank else w)\<rparr>)"

text \<open>A field in which at most one of the three separator characters occurs.\<close>

definition one_separator :: "string \<Rightarrow> bool" where
  "one_separator field \<longleftrightarrow>
     \<not> (CHR ''>'' \<in> set field \<and> CHR ''<'' \<in> set field) \<and>
     \<not> (CHR ''>'' \<in> set field \<and> CHR ''.'' \<in> set field) \<and>
     \<not> (CHR ''<'' \<in> set field \<and> CHR ''.'' \<in> set field)"

text \<open>\<open>statePattern.MatchString\<close> for the pattern \<open>Q\d+\<close>: a \<open>Q\<close> followed by an ASCII digit.\<close>

definition is_digit :: "char \<Rightarrow> bool" where
  "is_digit c \<longleftrightarrow> c \<in> set ''0123456789''"

fun statePattern_MatchString :: "string \<Rightarrow> bool" where
  "statePattern_MatchString (c # d # s) =
     ((c = CHR ''Q'' \<and> is_digit d) \<or> statePattern_MatchString (d # s))"
| "statePattern_MatchString s = False"

definition TAB :: char where
  "TAB = CHR 0x09"

text \<open>A call either returns or panics (here: an index out of range).\<close>

datatype 'a outcome = Return 'a | Panic

text \<open>
  The inner loop of \<open>ReadCtx\<close> over the fields of one table row; \<open>i\<close> is the index of
  the field and \<open>rng i\<close> the order the call of \<open>ParseTransition\<close> on it ranges in.
\<close>

fun row_fields ::
  "(nat \<Rightarrow> (char \<times> Direction) list) \<Rightarrow> string list \<Rightarrow> rune \<Rightarrow> nat \<Rightarrow> nat \<Rightarrow> string list
     \<Rightarrow> Program \<Rightarrow> (error + Program) outcome" where
  "row_fields rng states symbol i stateIndex [] prog = Return (Inr prog)"
| "row_fields rng states symbol i stateIndex (f # fs) prog =
     (if f = [] then row_fields rng states symbol (Suc i) (Suc stateIndex) fs prog
      else
        case ParseTransition (rng i) f of
          Inl err \<Rightarrow> Return (Inl err)
        | Inr transition \<Rightarrow>
            if stateIndex < length states then
              let st = states ! stateIndex;
                  inner = (case prog st of None \<Rightarrow> Map.empty | Some ts \<Rightarrow> ts)
              in row_fields rng states symbol (Suc i) (Suc stateIndex) fs
                   (prog(st \<mapsto> inner(symbol \<mapsto> transition)))
            else Panic)"

text \<open>
  The loop over the lines the scanner yields; \<open>k\<close> is the number of the line, which is
  also the number of the check of the context.
\<close>

fun scan_loop ::
  "ctx \<Rightarrow> (nat \<Rightarrow> nat \<Rightarrow> (char \<times> Direction) list) \<Rightarrow> nat \<Rightarrow> string list \<Rightarrow> Program
     \<Rightarrow> string list \<Rightarrow> bool \<Rightarrow> (error + Program) outcome" where
  "scan_loop c rng k [] prog states inScope = Return (Inr prog)"
| "scan_loop c rng k (line # rest) prog states inScope =
     (if ctx_Err c k then Return (Inl ErrCancelled)
      else
        let fields = Split line TAB in
        if length fields = 0 then scan_loop c rng (Suc k) rest prog states inScope
        else if \<not> inScope then
          (if length fields > 1 \<and> statePattern_MatchString (Join (tl fields) '' '')
           then scan_loop c rng (Suc k) rest prog (tl fields) True
           else scan_loop c rng (Suc k) rest prog states inScope)
        else if fields ! 0 = [] then scan_loop c rng (Suc k) rest prog states inScope
        else
          let symbol = fst (DecodeRuneInString (fields ! 0)) in
          case row_fields (rng k) states symbol 1 0 (tl fields) prog of
            Return (Inr prog') \<Rightarrow> scan_loop c rng (Suc k) rest prog' states inScope
          | Return (Inl err) \<Rightarrow> Return (Inl err)
          | Panic \<Rightarrow> Panic)"

text \<open>
  \<open>ReadCtx\<close>. The \<open>bufio.Scanner\<close> over the reader is taken by what it does: the lines
  it yields before \<open>Scan\<close> returns false, and whether \<open>scanner.Err()\<close> is then not nil.
\<close>

definition ReadCtx ::
  "ctx \<Rightarrow> (nat \<Rightarrow> nat \<Rightarrow> (char \<times> Direction) list) \<Rightarrow> string list \<Rightarrow> bool
     \<Rightarrow> (error + Program) outcome" where
  "ReadCtx c rng lines scanErr =
     (case scan_loop c rng 0 lines Map.empty [] False of
        Return (Inr prog) \<Rightarrow>
          if scanErr then Return (Inl ErrReadProgram)
          else if prog = Map.empty then Return (Inl ErrNoTransitions)
          else Return (Inr prog)
      | Return (Inl err) \<Rightarrow> Return (Inl err)
      | Panic \<Rightarrow> Panic)"

section \<open>The machines of the tests\<close>

definition one :: rune where
  "one = rune_of CHR ''1''"

text \<open>\<open>TestMachine_Exec_Plus_One_Program\<close> and the README.\<close>

definition increment_program :: Program where
  "increment_program =
     [''Q1'' \<mapsto> [blank \<mapsto> \<lparr>NextState = ''Q0'', Move = Stay, Write = one\<rparr>,
                 one \<mapsto> \<lparr>NextState = ''Q1'', Move = Left, Write = one\<rparr>]]"

text \<open>\<open>TestMachine_Exec_StepsExceed\<close> and \<open>TestMachine_Exec_TapeOver\<close>.\<close>

definition left_program :: Program where
  "left_program = [''Q1'' \<mapsto> [blank \<mapsto> \<lparr>NextState = ''Q1'', Move = Left, Write = blank\<rparr>]]"

text \<open>\<open>TestMachine_Exec_InfiniteLoop\<close>.\<close>

definition stay_program :: Program where
  "stay_program = [''Q1'' \<mapsto> [blank \<mapsto> \<lparr>NextState = ''Q1'', Move = Stay, Write = blank\<rparr>]]"

text \<open>A cycle of two steps: \<open>Q1\<close> and \<open>Q2\<close> hand over to each other without moving.\<close>

definition pingpong_program :: Program where
  "pingpong_program =
     [''Q1'' \<mapsto> [blank \<mapsto> \<lparr>NextState = ''Q2'', Move = Stay, Write = blank\<rparr>],
      ''Q2'' \<mapsto> [blank \<mapsto> \<lparr>NextState = ''Q1'', Move = Stay, Write = blank\<rparr>]]"

text \<open>The tape holding \<open>1\<close> in every cell from \<open>a\<close> to \<open>b\<close> and nothing else.\<close>

definition ones :: "int \<Rightarrow> int \<Rightarrow> tape_map" where
  "ones a b = fmap_of_list (map (\<lambda>i. (i, one)) [a..b])"

text \<open>A store holding one map, at address \<open>0\<close>.\<close>

definition caller_store :: "tape_map \<Rightarrow> store" where
  "caller_store t = \<lparr>maps = (\<lambda>a. fmempty)(0 := t), brk = 1\<rparr>"

text \<open>The store before anything is allocated.\<close>

definition empty_store :: store where
  "empty_store = \<lparr>maps = (\<lambda>a. fmempty), brk = 0\<rparr>"

text \<open>
  A store with two maps: at address \<open>0\<close> the tape a machine got from \<open>NewMachine\<close>,
  at address \<open>1\<close> a map of the caller.
\<close>

definition two_maps :: "tape_map \<Rightarrow> tape_map \<Rightarrow> store" where
  "two_maps t0 t1 = \<lparr>maps = (\<lambda>a. fmempty)(0 := t0, 1 := t1), brk = 2\<rparr>"

text \<open>The one-entry programs of \<open>TestProgram_Validate\<close>.\<close>

definition single_entry :: "string \<Rightarrow> Direction \<Rightarrow> rune \<Rightarrow> Program" where
  "single_entry ns mv w = [''Q1'' \<mapsto> [blank \<mapsto> \<lparr>NextState = ns, Move = mv, Write = w\<rparr>]]"

text \<open>
  The machine \<open>NewMachine\<close> returns for start state \<open>Q1\<close> and terminal state \<open>Q0\<close>,
  as in all the tests, with its tape at address \<open>t\<close>.
\<close>

definition test_machine :: "Program \<Rightarrow> rune set \<Rightarrow> nat \<Rightarrow> nat \<Rightarrow> addr \<Rightarrow> Machine" where
  "test_machine prog alph maxTape maxStep t =
     \<lparr>carriage = 0, tape = t, state = [], startState = ''Q1'', terminalState = ''Q0'',
      alphabet = alph, program = prog, steps = 0, maxTapeLength = maxTape,
      maxSteps = maxStep\<rparr>"

text \<open>
  The configurations the two-step cycle runs through when no step limit is set: the
  carriage stays on cell \<open>0\<close>, which is unwritten or holds a blank.
\<close>

definition pingpong_config :: "store \<Rightarrow> Machine \<Rightarrow> bool" where
  "pingpong_config h m \<longleftrightarrow>
     carriage m = 0 \<and> (state m = ''Q1'' \<or> state m = ''Q2'') \<and> terminalState m = ''Q0'' \<and>
     alphabet m = {blank} \<and> program m = pingpong_program \<and> maxSteps m = 0 \<and>
     maxTapeLength m = 10 \<and>
     (maps h (tape m) = fmempty \<or> maps h (tape m) = fmupd 0 blank fmempty)"

text \<open>
  A range order of the direction table that starts with the dot, and a table of one
  state whose only transition writes a dot and moves right: the lines
  \<open>\tQ1\<close> and \<open>1\t.>1\<close>.
\<close>

definition dot_first :: "(char \<times> Direction) list" where
  "dot_first = [(CHR ''.'', Stay), (CHR ''>'', Right), (CHR ''<'', Left)]"

definition dot_program_lines :: "string list" where
  "dot_program_lines = [TAB # ''Q1'', ''1'' @ [TAB] @ ''.>1'']"

text \<open>
  A table with one state in the header and a row of two transitions: the lines
  \<open>\tQ1\<close> and \<open>1\t1>1\t1>1\<close>.
\<close>

definition long_row_lines :: "string list" where
  "long_row_lines = [TAB # ''Q1'', ''1'' @ [TAB] @ ''1>1'' @ [TAB] @ ''1>1'']"

section \<open>Properties\<close>

subsection \<open>Steps and runs\<close>

lemma step_tape: "step h m = (h', m', r) \<Longrightarrow> tape m' = tape m"
  by (auto simp: step_def Let_def move_def split: if_splits option.splits)

lemma step_brk: "step h m = (h', m', r) \<Longrightarrow> brk h' = brk h"
  by (auto simp: step_def Let_def move_def write_tape_def split: if_splits option.splits)

lemma step_frame: "step h m = (h', m', r) \<Longrightarrow> a \<noteq> tape m \<Longrightarrow> maps h' a = maps h a"
  by (auto simp: step_def Let_def move_def write_tape_def split: if_splits option.splits)

lemma step_dom:
  "step h m = (h', m', r) \<Longrightarrow> fmdom (maps h (tape m)) |\<subseteq>| fmdom (maps h' (tape m))"
  by (auto simp: step_def Let_def move_def write_tape_def split: if_splits option.splits)

lemma step_applied:
  assumes "state m \<noteq> terminalState m" and "read h m \<in> alphabet m"
    and "lookup_transition (program m) (state m) (read h m) = Some t"
    and "\<not> (Move t = Stay \<and> NextState t = state m \<and> Write t = read h m)"
  shows "step h m =
     (write_tape h m (Write t),
      m\<lparr>carriage := wrap_int (carriage m + Move t), state := NextState t,
        steps := wrap_uint (steps m + 1)\<rparr>,
      if maxTapeLength m \<le> len (fmupd (carriage m) (Write t) (maps h (tape m)))
      then Inl ErrTapeOver
      else if 0 < maxSteps m \<and> maxSteps m \<le> wrap_uint (steps m + 1)
      then Inl ErrStepsExceeded
      else Inr True)"
  using assms by (auto simp: step_def Let_def move_def write_tape_def)

lemma step_InfiniteLoop_iff:
  "snd (snd (step h m)) = Inl ErrInfiniteLoop \<longleftrightarrow>
     state m \<noteq> terminalState m \<and> read h m \<in> alphabet m \<and>
     (\<exists>t. lookup_transition (program m) (state m) (read h m) = Some t \<and>
          Write t = read h m \<and> Move t = Stay \<and> NextState t = state m)"
  by (auto simp: step_def Let_def split: option.splits)

text \<open>The loop of a run keeps \<open>run_inv\<close>: rule induction on the returning runs.\<close>

lemma ExecLoop_run_inv:
  assumes run: "ExecLoop c k h m = Some y"
  shows "run_inv h m y"
proof (rule ExecLoop.raw_induct [where P = "\<lambda>c k h m y. run_inv h m y", OF _ run])
  fix loop c k h m y
  assume IH: "\<And>c k h m y. loop c k h m = Some y \<Longrightarrow> run_inv h m y"
    and body: "(if ctx_Err c k then Some (h, m, Inl ErrCancelled)
      else case step h m of (h', m', Inl err) \<Rightarrow> Some (h', m', Inl err)
           | (h', m', Inr ok) \<Rightarrow>
               if ok then loop c (Suc k) h' m'
               else Some (h', m', Inr (tape m'))) = Some y"
  show "run_inv h m y"
  proof (cases "ctx_Err c k")
    case True
    with body show ?thesis by (auto simp: run_inv_def)
  next
    case False
    obtain h1 m1 r1 where st: "step h m = (h1, m1, r1)"
      by (cases "step h m") auto
    note facts = step_tape [OF st] step_brk [OF st] step_frame [OF st] step_dom [OF st]
    show ?thesis
    proof (cases r1)
      case (Inl err)
      with body False st facts show ?thesis by (auto simp: run_inv_def)
    next
      case (Inr ok)
      show ?thesis
      proof (cases ok)
        case True
        with body False st Inr have "loop c (Suc k) h1 m1 = Some y" by simp
        from IH [OF this] facts show ?thesis
          by (auto simp: run_inv_def)
      next
        case False
        with body \<open>\<not> ctx_Err c k\<close> st Inr facts show ?thesis by (auto simp: run_inv_def)
      qed
    qed
  qed
qed

lemma ExecCtx_ignores_tape:
  "ExecCtx c h (m\<lparr>tape := t\<rparr>) c0 input = ExecCtx c h m c0 input"
  by (simp add: ExecCtx_def make_map_def)

lemma ExecCtx_effect:
  assumes "ExecCtx c h m c0 input = Some (h', m', r)"
  shows "(\<forall>a. a \<noteq> brk h \<longrightarrow> maps h' a = maps h a) \<and> brk h' = Suc (brk h) \<and> tape m' = brk h
      \<and> (\<forall>a. r = Inr a \<longrightarrow> a = brk h)
      \<and> (input \<noteq> brk h \<longrightarrow> fmdom (maps h input) |\<subseteq>| fmdom (maps h' (tape m')))"
proof -
  define h1 where "h1 = fst (make_map h)"
  define h2 where "h2 = h1\<lparr>maps := (maps h1)(brk h := maps h1 input)\<rparr>"
  define m2 where "m2 = m\<lparr>carriage := c0, state := startState m, steps := 0, tape := brk h\<rparr>"
  have run: "ExecLoop c 0 h2 m2 = Some (h', m', r)"
    using assms by (simp add: ExecCtx_def make_map_def h1_def h2_def m2_def)
  have h2: "brk h2 = Suc (brk h)" "\<And>a. a \<noteq> brk h \<Longrightarrow> maps h2 a = maps h a"
    "input \<noteq> brk h \<Longrightarrow> maps h2 (brk h) = maps h input"
    by (simp_all add: h2_def h1_def make_map_def)
  have m2: "tape m2 = brk h"
    by (simp add: m2_def)
  from ExecLoop_run_inv [OF run] h2 m2 show ?thesis
    by (auto simp: run_inv_def)
qed

lemma wrap_int_small: "wrap_int 0 = 0" "wrap_int (- 1) = - 1"
  by (simp_all add: wrap_int_def)

lemma len_simps:
  "len fmempty = 0"
  "len (fmupd k v t) = (if k |\<in>| fmdom t then len t else Suc (len t))"
  by (simp_all add: len_def fcard_finsert_if fcard_fempty)

lemma ExecCtx_unfold:
  "ExecCtx c h m c0 input = ExecLoop c 0 (start_store h input) (start_machine h m c0)"
  by (simp add: ExecCtx_def make_map_def start_store_def start_machine_def)

lemma start_store_simps:
  "brk (start_store h input) = Suc (brk h)"
  "a \<noteq> brk h \<Longrightarrow> maps (start_store h input) a = maps h a"
  "input \<noteq> brk h \<Longrightarrow> maps (start_store h input) (brk h) = maps h input"
  by (simp_all add: start_store_def make_map_def)

lemma start_machine_simps:
  "carriage (start_machine h m c0) = c0" "tape (start_machine h m c0) = brk h"
  "state (start_machine h m c0) = startState m" "steps (start_machine h m c0) = 0"
  "startState (start_machine h m c0) = startState m"
  "terminalState (start_machine h m c0) = terminalState m"
  "alphabet (start_machine h m c0) = alphabet m" "program (start_machine h m c0) = program m"
  "maxTapeLength (start_machine h m c0) = maxTapeLength m"
  "maxSteps (start_machine h m c0) = maxSteps m"
  by (simp_all add: start_machine_def)

lemma ExecLoop_cancel: "ctx_Err c k \<Longrightarrow> ExecLoop c k h m = Some (h, m, Inl ErrCancelled)"
  by (subst ExecLoop.simps) simp

lemma ExecLoop_continue:
  "\<not> ctx_Err c k \<Longrightarrow> step h m = (h', m', Inr True) \<Longrightarrow> ExecLoop c k h m = ExecLoop c (Suc k) h' m'"
  by (subst ExecLoop.simps) simp

lemma ExecLoop_halt:
  "\<not> ctx_Err c k \<Longrightarrow> step h m = (h', m', Inr False) \<Longrightarrow>
     ExecLoop c k h m = Some (h', m', Inr (tape m'))"
  by (subst ExecLoop.simps) simp

lemma ExecLoop_fail:
  "\<not> ctx_Err c k \<Longrightarrow> step h m = (h', m', Inl e) \<Longrightarrow> ExecLoop c k h m = Some (h', m', Inl e)"
  by (subst ExecLoop.simps) simp

lemma step_halted: "state m = terminalState m \<Longrightarrow> step h m = (h, m, Inr False)"
  by (simp add: step_def)

text \<open>Tapes of ones.\<close>

lemma map_of_const:
  "map_of (map (\<lambda>i. (i, c)) xs) i = (if i \<in> set xs then Some c else None)"
  by (induction xs) auto

lemma ones_lookup: "fmlookup (ones a b) i = (if a \<le> i \<and> i \<le> b then Some one else None)"
  by (simp add: ones_def fmlookup_of_list map_of_const)

lemma ones_extend: "a \<le> b + 1 \<Longrightarrow> fmupd (a - 1) one (ones a b) = ones (a - 1) b"
  by (rule fmap_ext) (auto simp: ones_lookup)

lemma ones_absorb: "a \<le> i \<Longrightarrow> i \<le> b \<Longrightarrow> fmupd i one (ones a b) = ones a b"
  by (rule fmap_ext) (auto simp: ones_lookup)

lemma ones_single: "ones a a = fmupd a one fmempty"
  by (rule fmap_ext) (auto simp: ones_lookup)

lemma fmdom_ones: "fmdom (ones a b) = fset_of_list [a..b]"
  by (simp add: ones_def comp_def)

lemma len_ones: "len (ones a b) = nat (b - a + 1)"
proof -
  have "fcard (fset_of_list [a..b]) = card {a..b}"
    by (simp add: fcard.rep_eq fset_of_list.rep_eq)
  then show ?thesis
    by (simp add: len_def fmdom_ones)
qed

subsection \<open>Validation\<close>

lemma Validate_symbols_None_iff:
  "Validate_symbols tp alph terminal ts symbols = None \<longleftrightarrow>
     (\<forall>s \<in> set symbols. \<forall>t. ts s = Some t \<longrightarrow> check_transition tp alph terminal t = None)"
  by (induction symbols) (auto split: option.splits)

lemma Validate_symbols_Some:
  "Validate_symbols tp alph terminal ts symbols = Some e \<Longrightarrow>
     \<exists>s \<in> set symbols. \<exists>t. ts s = Some t \<and> check_transition tp alph terminal t = Some e"
  by (induction symbols) (auto split: option.splits)

lemma Validate_states_None_iff:
  "Validate_states tp alph terminal ord = None \<longleftrightarrow>
     (\<forall>(st, symbols) \<in> set ord. \<forall>ts. tp st = Some ts \<longrightarrow>
        (\<forall>s \<in> set symbols. \<forall>t. ts s = Some t \<longrightarrow> check_transition tp alph terminal t = None))"
proof (induction ord)
  case Nil
  show ?case by simp
next
  case (Cons p ord)
  obtain st symbols where p: "p = (st, symbols)"
    by (cases p)
  show ?case
  proof (cases "tp st")
    case None
    with Cons p show ?thesis by simp
  next
    case (Some ts)
    show ?thesis
    proof (cases "Validate_symbols tp alph terminal ts symbols")
      case None
      with Cons p Some Validate_symbols_None_iff [of tp alph terminal ts symbols]
      show ?thesis by simp
    next
      case (Some e)
      with Validate_symbols_None_iff [of tp alph terminal ts symbols]
      have "\<not> (\<forall>s \<in> set symbols. \<forall>t. ts s = Some t \<longrightarrow> check_transition tp alph terminal t = None)"
        by simp
      with p \<open>tp st = Some ts\<close> Some show ?thesis by auto
    qed
  qed
qed

lemma Validate_states_Some:
  "Validate_states tp alph terminal ord = Some e \<Longrightarrow>
     \<exists>(st, symbols) \<in> set ord. \<exists>ts. tp st = Some ts \<and>
        (\<exists>s \<in> set symbols. \<exists>t. ts s = Some t \<and> check_transition tp alph terminal t = Some e)"
  by (induction ord) (auto split: option.splits dest: Validate_symbols_Some)

lemma range_of_entry:
  assumes "range_of tp ord" "tp st = Some ts" "ts s = Some t"
  shows "\<exists>symbols. (st, symbols) \<in> set ord \<and> s \<in> set symbols"
proof -
  from assms(1,2) have "st \<in> set (map fst ord)"
    by (auto simp: range_of_def)
  then obtain symbols where in_ord: "(st, symbols) \<in> set ord"
    by auto
  with assms(1) obtain ts' where "tp st = Some ts'" "set symbols = dom ts'"
    by (auto simp: range_of_def)
  with assms(2,3) have "s \<in> set symbols"
    by auto
  with in_ord show ?thesis by blast
qed

lemma Validate_None_iff:
  assumes "range_of tp ord"
  shows "Validate ord tp alph terminal = None \<longleftrightarrow>
     (\<forall>st ts s t. tp st = Some ts \<and> ts s = Some t \<longrightarrow> check_transition tp alph terminal t = None)"
proof
  assume none: "Validate ord tp alph terminal = None"
  show "\<forall>st ts s t. tp st = Some ts \<and> ts s = Some t \<longrightarrow> check_transition tp alph terminal t = None"
  proof (intro allI impI)
    fix st ts s t
    assume e: "tp st = Some ts \<and> ts s = Some t"
    with range_of_entry [OF assms] obtain symbols where "(st, symbols) \<in> set ord" "s \<in> set symbols"
      by blast
    with none e show "check_transition tp alph terminal t = None"
      by (auto simp: Validate_def Validate_states_None_iff)
  qed
next
  assume "\<forall>st ts s t. tp st = Some ts \<and> ts s = Some t \<longrightarrow> check_transition tp alph terminal t = None"
  then show "Validate ord tp alph terminal = None"
    by (auto simp: Validate_def Validate_states_None_iff)
qed

lemma Validate_Some:
  assumes "Validate ord tp alph terminal = Some e"
  shows "\<exists>st ts s t. tp st = Some ts \<and> ts s = Some t \<and> check_transition tp alph terminal t = Some e"
  using Validate_states_Some [of tp alph terminal ord e] assms
  by (auto simp: Validate_def)

lemma blank_neq_one: "blank \<noteq> one" "one \<noteq> blank"
  by (simp_all add: blank_def one_def rune_of_def)

lemma check_transition_None_iff:
  "check_transition tp alph terminal t = None \<longleftrightarrow>
     Move t \<in> {Left, Right, Stay} \<and> Write t \<in> alph \<and>
     (NextState t = terminal \<or> NextState t \<in> dom tp)"
  by (auto simp: check_transition_def)

lemma check_transition_Some:
  "check_transition tp alph terminal t = Some e \<Longrightarrow>
     (if Move t \<notin> {Left, Right, Stay} then e = ErrInvalidMoveDirection
      else if Write t \<notin> alph then e = ErrUnexpectedSymbol
      else NextState t \<noteq> terminal \<and> NextState t \<notin> dom tp \<and> e = ErrStateNotFound)"
  by (auto simp: check_transition_def split: if_splits)

text \<open>
  C4. Whatever order the runtime visits the entries in, validation returns no error
  exactly when every transition of the program has a move among Left, Right and Stay,
  a write symbol in the alphabet, and a next state that is the terminal state or a key
  of the program. When it returns an error, the error is that of some entry by the
  checks in their order: InvalidMoveDirection for a bad move; else UnexpectedSymbol for
  a write symbol outside the alphabet; else the next state is neither the terminal
  state nor a key and the error is StateNotFound.
\<close>

theorem Validate_checks_every_entry:
  assumes "range_of tp ord"
  shows "(Validate ord tp alph terminal = None \<longleftrightarrow>
            (\<forall>st ts s t. tp st = Some ts \<and> ts s = Some t \<longrightarrow>
               Move t \<in> {Left, Right, Stay} \<and> Write t \<in> alph \<and>
               (NextState t = terminal \<or> NextState t \<in> dom tp)))
       \<and> (\<forall>e. Validate ord tp alph terminal = Some e \<longrightarrow>
            (\<exists>st ts s t. tp st = Some ts \<and> ts s = Some t \<and>
               (if Move t \<notin> {Left, Right, Stay} then e = ErrInvalidMoveDirection
                else if Write t \<notin> alph then e = ErrUnexpectedSymbol
                else NextState t \<noteq> terminal \<and> NextState t \<notin> dom tp \<and> e = ErrStateNotFound)))"
proof (intro conjI allI impI)
  show "Validate ord tp alph terminal = None \<longleftrightarrow>
            (\<forall>st ts s t. tp st = Some ts \<and> ts s = Some t \<longrightarrow>
               Move t \<in> {Left, Right, Stay} \<and> Write t \<in> alph \<and>
               (NextState t = terminal \<or> NextState t \<in> dom tp))"
    by (simp only: Validate_None_iff [OF assms] check_transition_None_iff)
next
  fix e
  assume "Validate ord tp alph terminal = Some e"
  from Validate_Some [OF this] obtain st ts s t
    where "tp st = Some ts" "ts s = Some t" "check_transition tp alph terminal t = Some e"
    by blast
  with check_transition_Some [of tp alph terminal t e]
  show "\<exists>st ts s t. tp st = Some ts \<and> ts s = Some t \<and>
               (if Move t \<notin> {Left, Right, Stay} then e = ErrInvalidMoveDirection
                else if Write t \<notin> alph then e = ErrUnexpectedSymbol
                else NextState t \<noteq> terminal \<and> NextState t \<notin> dom tp \<and> e = ErrStateNotFound)"
    by blast
qed

text \<open>The four cases of \<open>TestProgram_Validate\<close>, the first through the theorem.\<close>

theorem Validate_checks_every_entry_witness:
  "range_of (single_entry ''Q0'' Stay blank) [(''Q1'', [blank])] \<and>
   Validate [(''Q1'', [blank])] (single_entry ''Q0'' Stay blank) {blank} ''Q0'' = None \<and>
   Validate [(''Q1'', [blank])] (single_entry ''Q2'' Stay blank) {blank} ''Q0''
     = Some ErrStateNotFound \<and>
   Validate [(''Q1'', [blank])] (single_entry ''Q0'' (- 2) blank) {blank} ''Q0''
     = Some ErrInvalidMoveDirection \<and>
   Validate [(''Q1'', [blank])] (single_entry ''Q2'' Stay one) {blank} ''Q0''
     = Some ErrUnexpectedSymbol"
proof -
  have r: "range_of (single_entry ns mv w) [(''Q1'', [blank])]" for ns mv w
    by (simp add: range_of_def single_entry_def)
  have ok: "Validate [(''Q1'', [blank])] (single_entry ''Q0'' Stay blank) {blank} ''Q0'' = None"
    using Validate_checks_every_entry [OF r, of "''Q0''" Stay blank "{blank}" "''Q0''"]
    by (auto simp: single_entry_def split: if_splits)
  show ?thesis
    using r ok
    by (simp add: Validate_def single_entry_def check_transition_def Left_def Right_def
        Stay_def blank_neq_one)
qed

subsection \<open>The two-step cycle\<close>

lemma pingpong_step:
  assumes "pingpong_config h m"
  shows "\<exists>h' m'. step h m = (h', m', Inr True) \<and> pingpong_config h' m'"
proof -
  from assms have cfg: "carriage m = 0" "state m = ''Q1'' \<or> state m = ''Q2''"
    "terminalState m = ''Q0''" "alphabet m = {blank}" "program m = pingpong_program"
    "maxSteps m = 0" "maxTapeLength m = 10"
    "maps h (tape m) = fmempty \<or> maps h (tape m) = fmupd 0 blank fmempty"
    by (simp_all add: pingpong_config_def)
  define t where "t = \<lparr>NextState = (if state m = ''Q1'' then ''Q2'' else ''Q1''), Move = Stay, Write = blank\<rparr>"
  from cfg(1,8) have rd: "read h m = blank"
    by (auto simp: read_def)
  from cfg(2,5) have lk: "lookup_transition (program m) (state m) blank = Some t"
    by (auto simp: lookup_transition_def pingpong_program_def t_def)
  from cfg(2) have nt: "state m \<noteq> terminalState m" "NextState t \<noteq> state m"
    by (auto simp: cfg(3) t_def)
  have st: "step h m =
     (write_tape h m (Write t),
      m\<lparr>carriage := wrap_int (carriage m + Move t), state := NextState t,
        steps := wrap_uint (steps m + 1)\<rparr>,
      if maxTapeLength m \<le> len (fmupd (carriage m) (Write t) (maps h (tape m)))
      then Inl ErrTapeOver
      else if 0 < maxSteps m \<and> maxSteps m \<le> wrap_uint (steps m + 1)
      then Inl ErrStepsExceeded
      else Inr True)"
    by (rule step_applied) (simp_all add: rd lk nt cfg(4))
  from cfg(8) have ln: "len (fmupd 0 blank (maps h (tape m))) = 1"
    by (auto simp: len_simps)
  have w: "maps (write_tape h m blank) (tape m) = fmupd 0 blank fmempty"
    using cfg(1,8) by (auto simp: write_tape_def)
  have res: "step h m = (write_tape h m blank,
      m\<lparr>carriage := 0, state := NextState t, steps := wrap_uint (steps m + 1)\<rparr>, Inr True)"
    unfolding st by (simp add: cfg ln t_def Stay_def wrap_int_small)
  have "pingpong_config (write_tape h m blank)
          (m\<lparr>carriage := 0, state := NextState t, steps := wrap_uint (steps m + 1)\<rparr>)"
    using cfg(2) by (auto simp: pingpong_config_def cfg w t_def)
  with res show ?thesis by blast
qed

lemma pingpong_no_return:
  assumes run: "ExecLoop c j h m = Some y"
  shows "\<not> (c = None \<and> pingpong_config h m)"
proof (rule ExecLoop.raw_induct [where P = "\<lambda>c j h m y. \<not> (c = None \<and> pingpong_config h m)",
      OF _ run])
  fix loop c j h m y
  assume IH: "\<And>c j h m y. loop c j h m = Some y \<Longrightarrow> \<not> (c = None \<and> pingpong_config h m)"
    and body: "(if ctx_Err c j then Some (h, m, Inl ErrCancelled)
      else case step h m of (h', m', Inl err) \<Rightarrow> Some (h', m', Inl err)
           | (h', m', Inr ok) \<Rightarrow>
               if ok then loop c (Suc j) h' m'
               else Some (h', m', Inr (tape m'))) = Some y"
  show "\<not> (c = None \<and> pingpong_config h m)"
  proof
    assume a: "c = None \<and> pingpong_config h m"
    with pingpong_step obtain h' m' where s: "step h m = (h', m', Inr True)"
      and c: "pingpong_config h' m'"
      by blast
    from a body s have "loop None (Suc j) h' m' = Some y"
      by (simp add: ctx_Err_def)
    from IH [OF this] c show False by blast
  qed
qed

lemma pingpong_diverges:
  assumes "input \<noteq> brk h" and "maps h input = fmempty"
  shows "Exec h (test_machine pingpong_program {blank} 10 0 t) 0 input = None"
proof (cases "Exec h (test_machine pingpong_program {blank} 10 0 t) 0 input")
  case None
  then show ?thesis .
next
  case (Some y)
  let ?m = "test_machine pingpong_program {blank} 10 0 t"
  from Some have "ExecLoop None 0 (start_store h input) (start_machine h ?m 0) = Some y"
    by (simp only: Exec_def ExecCtx_unfold)
  moreover have "pingpong_config (start_store h input) (start_machine h ?m 0)"
    using assms by (simp add: pingpong_config_def start_store_simps start_machine_simps test_machine_def)
  ultimately show ?thesis
    using pingpong_no_return by blast
qed

subsection \<open>Claims about single steps and runs\<close>

text \<open>
  C2. A step fails with InfiniteLoop exactly when it looks a transition up (the state
  is not terminal and the symbol read is in the alphabet) and that transition writes
  the symbol read, moves Stay and keeps the state. A transition looked up that is not
  of this kind is applied: the symbol is written, the carriage moved, the state set and
  the step counted, and the step continues or fails with TapeOver or StepsExceeded.
  When no transition is looked up the step changes nothing and halts or fails with
  UnexpectedSymbol or TransitionNotFound. A cycle of two steps is not detected: with no
  step limit the run of the two-state cycle on an empty input never returns.
\<close>

theorem infinite_loop_guard:
  "(snd (snd (step h m)) = Inl ErrInfiniteLoop \<longleftrightarrow>
      state m \<noteq> terminalState m \<and> read h m \<in> alphabet m \<and>
      (\<exists>t. lookup_transition (program m) (state m) (read h m) = Some t \<and>
           Write t = read h m \<and> Move t = Stay \<and> NextState t = state m))
   \<and> (\<forall>t. state m \<noteq> terminalState m \<and> read h m \<in> alphabet m \<and>
          lookup_transition (program m) (state m) (read h m) = Some t \<and>
          \<not> (Write t = read h m \<and> Move t = Stay \<and> NextState t = state m) \<longrightarrow>
          fst (step h m) = write_tape h m (Write t) \<and>
          fst (snd (step h m)) =
            m\<lparr>carriage := wrap_int (carriage m + Move t), state := NextState t,
              steps := wrap_uint (steps m + 1)\<rparr> \<and>
          snd (snd (step h m)) \<in> {Inr True, Inl ErrTapeOver, Inl ErrStepsExceeded})
   \<and> (state m = terminalState m \<or> read h m \<notin> alphabet m \<or>
        lookup_transition (program m) (state m) (read h m) = None \<longrightarrow>
        fst (step h m) = h \<and> fst (snd (step h m)) = m \<and>
        snd (snd (step h m)) \<in> {Inr False, Inl ErrUnexpectedSymbol, Inl ErrTransitionNotFound})
   \<and> (\<forall>h0 input t. input \<noteq> brk h0 \<and> maps h0 input = fmempty \<longrightarrow>
        Exec h0 (test_machine pingpong_program {blank} 10 0 t) 0 input = None)"
proof (intro conjI allI impI)
  show "snd (snd (step h m)) = Inl ErrInfiniteLoop \<longleftrightarrow>
      state m \<noteq> terminalState m \<and> read h m \<in> alphabet m \<and>
      (\<exists>t. lookup_transition (program m) (state m) (read h m) = Some t \<and>
           Write t = read h m \<and> Move t = Stay \<and> NextState t = state m)"
    using step_InfiniteLoop_iff [of h m] by blast
next
  fix t
  assume a: "state m \<noteq> terminalState m \<and> read h m \<in> alphabet m \<and>
          lookup_transition (program m) (state m) (read h m) = Some t \<and>
          \<not> (Write t = read h m \<and> Move t = Stay \<and> NextState t = state m)"
  then have s: "step h m =
     (write_tape h m (Write t),
      m\<lparr>carriage := wrap_int (carriage m + Move t), state := NextState t,
        steps := wrap_uint (steps m + 1)\<rparr>,
      if maxTapeLength m \<le> len (fmupd (carriage m) (Write t) (maps h (tape m)))
      then Inl ErrTapeOver
      else if 0 < maxSteps m \<and> maxSteps m \<le> wrap_uint (steps m + 1)
      then Inl ErrStepsExceeded
      else Inr True)"
    by (intro step_applied) auto
  show "fst (step h m) = write_tape h m (Write t)"
    by (simp add: s)
  show "fst (snd (step h m)) =
            m\<lparr>carriage := wrap_int (carriage m + Move t), state := NextState t,
              steps := wrap_uint (steps m + 1)\<rparr>"
    by (simp add: s)
  show "snd (snd (step h m)) \<in> {Inr True, Inl ErrTapeOver, Inl ErrStepsExceeded}"
    by (simp add: s)
next
  assume a: "state m = terminalState m \<or> read h m \<notin> alphabet m \<or>
        lookup_transition (program m) (state m) (read h m) = None"
  then show "fst (step h m) = h" "fst (snd (step h m)) = m"
    "snd (snd (step h m)) \<in> {Inr False, Inl ErrUnexpectedSymbol, Inl ErrTransitionNotFound}"
    by (auto simp: step_def Let_def)
next
  fix h0 :: store and input :: addr and t :: addr
  assume "input \<noteq> brk h0 \<and> maps h0 input = fmempty"
  then show "Exec h0 (test_machine pingpong_program {blank} 10 0 t) 0 input = None"
    by (simp add: pingpong_diverges)
qed

text \<open>
  The Stay machine of \<open>TestMachine_Exec_InfiniteLoop\<close> fails at its first step, the
  Left machine applies its transition, and the two-step cycle does not return.
\<close>

theorem infinite_loop_guard_witness:
  "snd (snd (step (caller_store fmempty)
     ((test_machine stay_program {blank} 10000 0 0)\<lparr>state := ''Q1''\<rparr>))) = Inl ErrInfiniteLoop
   \<and> fst (snd (step (caller_store fmempty)
     ((test_machine left_program {blank} 10000 0 0)\<lparr>state := ''Q1''\<rparr>)))
       = (test_machine left_program {blank} 10000 0 0)\<lparr>carriage := - 1, state := ''Q1'', steps := 1\<rparr>
   \<and> Exec (caller_store fmempty) (test_machine pingpong_program {blank} 10 0 1) 0 0 = None"
proof -
  let ?h = "caller_store fmempty"
  let ?s = "(test_machine stay_program {blank} 10000 0 0)\<lparr>state := ''Q1''\<rparr>"
  let ?l = "(test_machine left_program {blank} 10000 0 0)\<lparr>state := ''Q1''\<rparr>"
  have 1: "snd (snd (step ?h ?s)) = Inl ErrInfiniteLoop"
    using infinite_loop_guard [of ?h ?s]
    by (simp add: test_machine_def caller_store_def read_def lookup_transition_def
        stay_program_def)
  have 2: "fst (snd (step ?h ?l))
       = (test_machine left_program {blank} 10000 0 0)\<lparr>carriage := - 1, state := ''Q1'', steps := 1\<rparr>"
    using infinite_loop_guard [of ?h ?l]
    by (simp add: test_machine_def caller_store_def read_def lookup_transition_def
        left_program_def Left_def Stay_def wrap_int_small wrap_uint_def)
  have 3: "Exec ?h (test_machine pingpong_program {blank} 10 0 1) 0 0 = None"
    using infinite_loop_guard [of ?h ?s]
    by (simp add: caller_store_def)
  from 1 2 3 show ?thesis by blast
qed

text \<open>
  C9. The tape of a machine never loses a cell. A step leaves the machine on the same
  tape object and the cells of the tape after it include those before it; an applied
  step stores the write symbol of the transition at the carriage cell, whatever the
  symbol, so that the cell is occupied, and the TapeOver guard compares the number of
  cells of the tape so written with the maximum. The same inclusion holds from the
  head of the loop to the end of a run that returns, and from the caller's input to
  the final tape of \<open>ExecCtx\<close>.
\<close>

theorem tape_never_shrinks:
  "(\<forall>h' m' r. step h m = (h', m', r) \<longrightarrow>
       tape m' = tape m \<and> fmdom (maps h (tape m)) |\<subseteq>| fmdom (maps h' (tape m')))
   \<and> (\<forall>t. state m \<noteq> terminalState m \<and> read h m \<in> alphabet m \<and>
          lookup_transition (program m) (state m) (read h m) = Some t \<and>
          \<not> (Move t = Stay \<and> NextState t = state m \<and> Write t = read h m) \<longrightarrow>
          maps (fst (step h m)) (tape m) = fmupd (carriage m) (Write t) (maps h (tape m)) \<and>
          fmlookup (maps (fst (step h m)) (tape m)) (carriage m) = Some (Write t) \<and>
          (snd (snd (step h m)) = Inl ErrTapeOver \<longleftrightarrow>
             maxTapeLength m \<le> len (maps (fst (step h m)) (tape m))))
   \<and> (\<forall>h' m' r. ExecLoop c k h m = Some (h', m', r) \<longrightarrow>
       tape m' = tape m \<and> fmdom (maps h (tape m)) |\<subseteq>| fmdom (maps h' (tape m')))
   \<and> (\<forall>h' m' r. input \<noteq> brk h \<and> ExecCtx c h m c0 input = Some (h', m', r) \<longrightarrow>
       fmdom (maps h input) |\<subseteq>| fmdom (maps h' (tape m')))"
proof -
  have one_step: "tape m' = tape m \<and> fmdom (maps h (tape m)) |\<subseteq>| fmdom (maps h' (tape m'))"
    if "step h m = (h', m', r)" for h' m' r
    using step_tape [OF that] step_dom [OF that] by simp
  have applied: "maps (fst (step h m)) (tape m) = fmupd (carriage m) (Write t) (maps h (tape m)) \<and>
          fmlookup (maps (fst (step h m)) (tape m)) (carriage m) = Some (Write t) \<and>
          (snd (snd (step h m)) = Inl ErrTapeOver \<longleftrightarrow>
             maxTapeLength m \<le> len (maps (fst (step h m)) (tape m)))"
    if a: "state m \<noteq> terminalState m \<and> read h m \<in> alphabet m \<and>
          lookup_transition (program m) (state m) (read h m) = Some t \<and>
          \<not> (Move t = Stay \<and> NextState t = state m \<and> Write t = read h m)" for t
  proof -
    from a have s: "step h m =
     (write_tape h m (Write t),
      m\<lparr>carriage := wrap_int (carriage m + Move t), state := NextState t,
        steps := wrap_uint (steps m + 1)\<rparr>,
      if maxTapeLength m \<le> len (fmupd (carriage m) (Write t) (maps h (tape m)))
      then Inl ErrTapeOver
      else if 0 < maxSteps m \<and> maxSteps m \<le> wrap_uint (steps m + 1)
      then Inl ErrStepsExceeded
      else Inr True)"
      by (intro step_applied) auto
    show ?thesis
      by (simp add: s write_tape_def)
  qed
  have run: "tape m' = tape m \<and> fmdom (maps h (tape m)) |\<subseteq>| fmdom (maps h' (tape m'))"
    if "ExecLoop c k h m = Some (h', m', r)" for h' m' r
    using ExecLoop_run_inv [OF that] by (simp add: run_inv_def)
  have whole: "fmdom (maps h input) |\<subseteq>| fmdom (maps h' (tape m'))"
    if "input \<noteq> brk h \<and> ExecCtx c h m c0 input = Some (h', m', r)" for h' m' r
  proof -
    from that have "input \<noteq> brk h" and "ExecCtx c h m c0 input = Some (h', m', r)"
      by simp_all
    from ExecCtx_effect [OF this(2)] this(1) show ?thesis
      by blast
  qed
  from one_step applied run whole show ?thesis
    by blast
qed

text \<open>
  One step of the Left machine on the empty tape: the blank it writes occupies cell
  \<open>0\<close>, and with a maximum tape length of one the step fails with TapeOver.
\<close>

theorem tape_never_shrinks_witness:
  "step (caller_store fmempty) ((test_machine left_program {blank} 1 0 0)\<lparr>state := ''Q1''\<rparr>)
     = (caller_store (fmupd 0 blank fmempty),
        (test_machine left_program {blank} 1 0 0)\<lparr>carriage := - 1, state := ''Q1'', steps := 1\<rparr>,
        Inl ErrTapeOver)
   \<and> fmdom (maps (caller_store fmempty) 0) |\<subseteq>| fmdom (maps (caller_store (fmupd 0 blank fmempty)) 0)
   \<and> len (fmupd 0 blank fmempty) = 1"
  using tape_never_shrinks [of "caller_store fmempty"
      "(test_machine left_program {blank} 1 0 0)\<lparr>state := ''Q1''\<rparr>"]
  by (simp add: test_machine_def caller_store_def step_def read_def lookup_transition_def
      left_program_def Left_def Stay_def write_tape_def move_def wrap_int_small wrap_uint_def
      len_simps Let_def)

text \<open>
  C10. The limits are checked in the step that reaches the terminal state, the halt
  only in the step after it. From a configuration whose next step applies a transition
  into the terminal state, the run fails with TapeOver if the tape then holds at least
  the maximum number of cells; otherwise with StepsExceeded if a positive step limit
  is reached; only otherwise does the loop go round once more, where it returns the
  tape (or the cancellation, when the context has been cancelled by then).
\<close>

theorem limits_before_halt:
  assumes "\<not> ctx_Err c k" and "state m \<noteq> terminalState m" and "read h m \<in> alphabet m"
    and "lookup_transition (program m) (state m) (read h m) = Some t"
    and "\<not> (Move t = Stay \<and> NextState t = state m \<and> Write t = read h m)"
    and "NextState t = terminalState m"
  shows "ExecLoop c k h m =
     (let h' = write_tape h m (Write t);
          m' = m\<lparr>carriage := wrap_int (carriage m + Move t), state := terminalState m,
                 steps := wrap_uint (steps m + 1)\<rparr>
      in if maxTapeLength m \<le> len (maps h' (tape m)) then Some (h', m', Inl ErrTapeOver)
         else if 0 < maxSteps m \<and> maxSteps m \<le> steps m' then Some (h', m', Inl ErrStepsExceeded)
         else if ctx_Err c (Suc k) then Some (h', m', Inl ErrCancelled)
         else Some (h', m', Inr (tape m)))"
proof -
  define h' where "h' = write_tape h m (Write t)"
  define m' where "m' = m\<lparr>carriage := wrap_int (carriage m + Move t), state := terminalState m,
                 steps := wrap_uint (steps m + 1)\<rparr>"
  define r :: "error + bool" where "r =
      (if maxTapeLength m \<le> len (fmupd (carriage m) (Write t) (maps h (tape m)))
      then Inl ErrTapeOver
      else if 0 < maxSteps m \<and> maxSteps m \<le> wrap_uint (steps m + 1)
      then Inl ErrStepsExceeded
      else Inr True)"
  have s: "step h m = (h', m', r)"
    using step_applied [OF assms(2-5)] assms(6) by (simp add: h'_def m'_def r_def)
  have w: "maps h' (tape m) = fmupd (carriage m) (Write t) (maps h (tape m))"
    by (simp add: h'_def write_tape_def)
  have m': "state m' = terminalState m'" "tape m' = tape m" "steps m' = wrap_uint (steps m + 1)"
    by (simp_all add: m'_def)
  show ?thesis
  proof (cases r)
    case (Inl e)
    with ExecLoop_fail [OF assms(1) s [unfolded Inl]] show ?thesis
      unfolding Let_def h'_def [symmetric] m'_def [symmetric]
      by (auto simp: r_def w m' split: if_splits)
  next
    case (Inr b)
    then have b: "b = True" and guards: "\<not> maxTapeLength m \<le> len (maps h' (tape m))"
      "\<not> (0 < maxSteps m \<and> maxSteps m \<le> steps m')"
      by (auto simp: r_def w m' split: if_splits)
    from ExecLoop_continue [OF assms(1) s [unfolded Inr b]]
    have 1: "ExecLoop c k h m = ExecLoop c (Suc k) h' m'" .
    have 2: "ExecLoop c (Suc k) h' m' =
        (if ctx_Err c (Suc k) then Some (h', m', Inl ErrCancelled) else Some (h', m', Inr (tape m)))"
      using ExecLoop_cancel [of c "Suc k" h' m']
        ExecLoop_halt [of c "Suc k" h' m' h' m', OF _ step_halted [OF m'(1)]]
      by (simp add: m')
    show ?thesis
      unfolding Let_def h'_def [symmetric] m'_def [symmetric]
      using guards by (simp add: 1 2)
  qed
qed

text \<open>
  The machine of the README with a step limit of two, before its second step: the
  step reaches \<open>Q0\<close> and the run fails with StepsExceeded.
\<close>

theorem limits_before_halt_witness:
  "ExecLoop None 1 (caller_store (ones 0 0))
     ((test_machine increment_program {blank, one} 20 2 0)\<lparr>carriage := - 1, state := ''Q1'', steps := 1\<rparr>)
   = Some (caller_store (ones (- 1) 0),
           (test_machine increment_program {blank, one} 20 2 0)\<lparr>carriage := - 1, state := ''Q0'', steps := 2\<rparr>,
           Inl ErrStepsExceeded)"
  using limits_before_halt [of None 1
      "(test_machine increment_program {blank, one} 20 2 0)\<lparr>carriage := - 1, state := ''Q1'', steps := 1\<rparr>"
      "caller_store (ones 0 0)" "\<lparr>NextState = ''Q0'', Move = Stay, Write = one\<rparr>"]
  using ones_extend [of 0 0]
  by (simp add: ctx_Err_def test_machine_def caller_store_def ones_lookup read_def
      lookup_transition_def increment_program_def blank_neq_one Stay_def write_tape_def
      wrap_int_small wrap_uint_def len_ones Let_def)

subsection \<open>Construction and the runs of the tests\<close>

lemma NewMachine_valid:
  assumes "range_of prog ord" and "start \<noteq> []" and "terminal \<noteq> []" and "0 < maxTape"
    and "\<forall>st ts s t. prog st = Some ts \<and> ts s = Some t \<longrightarrow>
           check_transition prog (insert blank (set (runes alph))) terminal t = None"
  shows "NewMachine ord h alph start terminal prog maxTape maxStep =
     (h\<lparr>maps := (maps h)(brk h := fmempty), brk := Suc (brk h)\<rparr>,
      Inr \<lparr>carriage = 0, tape = brk h, state = [], startState = start,
           terminalState = terminal, alphabet = insert blank (set (runes alph)),
           program = prog, steps = 0, maxTapeLength = maxTape, maxSteps = maxStep\<rparr>)"
proof -
  from assms(1,5) have "Validate ord prog (insert blank (set (runes alph))) terminal = None"
    by (simp only: Validate_None_iff)
  with assms(2-4) show ?thesis
    by (simp add: NewMachine_def make_map_def)
qed

lemma increment_run:
  assumes cfg: "startState m = ''Q1''" "terminalState m = ''Q0''" "alphabet m = {blank, one}"
      "program m = increment_program" "maxTapeLength m = 20" "2 < maxSteps m"
    and n: "n \<le> 17" and inp: "input \<noteq> brk h" "maps h input = ones 0 (int n)"
  shows "ExecCtx None h m 0 input =
     Some ((start_store h input)\<lparr>maps := (maps (start_store h input))(brk h := ones (- 1) (int n))\<rparr>,
           (start_machine h m 0)\<lparr>carriage := - 1, state := ''Q0'', steps := 2\<rparr>,
           Inr (brk h))"
proof -
  define h0 where "h0 = start_store h input"
  define m0 where "m0 = start_machine h m 0"
  define t1 where "t1 = \<lparr>NextState = ''Q1'', Move = Left, Write = one\<rparr>"
  define t2 where "t2 = \<lparr>NextState = ''Q0'', Move = Stay, Write = one\<rparr>"
  define m1 where "m1 = m0\<lparr>carriage := - 1, state := ''Q1'', steps := 1\<rparr>"
  define h2 where "h2 = h0\<lparr>maps := (maps h0)(brk h := ones (- 1) (int n))\<rparr>"
  define m2 where "m2 = m0\<lparr>carriage := - 1, state := ''Q0'', steps := 2\<rparr>"
  have nc: "\<not> ctx_Err None k" for k
    by (simp add: ctx_Err_def)
  have h0: "maps h0 (brk h) = ones 0 (int n)"
    using inp by (simp add: h0_def start_store_simps)
  have m0: "carriage m0 = 0" "tape m0 = brk h" "state m0 = ''Q1''" "steps m0 = 0"
    "terminalState m0 = ''Q0''" "alphabet m0 = {blank, one}" "program m0 = increment_program"
    "maxTapeLength m0 = 20" "maxSteps m0 = maxSteps m"
    by (simp_all add: m0_def start_machine_simps cfg)
  have r0: "read h0 m0 = one"
    by (simp add: read_def m0 h0 ones_lookup)
  have l0: "lookup_transition increment_program ''Q1'' one = Some t1"
    by (simp add: lookup_transition_def increment_program_def t1_def blank_neq_one)
  have t1: "NextState t1 = ''Q1''" "Move t1 = - 1" "Write t1 = one"
    by (simp_all add: t1_def Left_def)
  have t2: "NextState t2 = ''Q0''" "Move t2 = 0" "Write t2 = one"
    by (simp_all add: t2_def Stay_def)
  have s1: "step h0 m0 = (h0, m1, Inr True)"
  proof -
    have eq: "step h0 m0 =
     (write_tape h0 m0 (Write t1),
      m0\<lparr>carriage := wrap_int (carriage m0 + Move t1), state := NextState t1,
        steps := wrap_uint (steps m0 + 1)\<rparr>,
      if maxTapeLength m0 \<le> len (fmupd (carriage m0) (Write t1) (maps h0 (tape m0)))
      then Inl ErrTapeOver
      else if 0 < maxSteps m0 \<and> maxSteps m0 \<le> wrap_uint (steps m0 + 1)
      then Inl ErrStepsExceeded
      else Inr True)"
      by (rule step_applied) (simp_all add: r0 l0 m0 t1 Stay_def)
    have e: "fmupd 0 one (ones 0 (int n)) = ones 0 (int n)"
      by (rule ones_absorb) simp_all
    have "(maps h0)(brk h := ones 0 (int n)) = maps h0"
      by (metis h0 fun_upd_triv)
    then have wt: "write_tape h0 m0 (Write t1) = h0"
      by (simp add: write_tape_def m0 h0 t1 e)
    have mm: "m0\<lparr>carriage := wrap_int (carriage m0 + Move t1), state := NextState t1,
        steps := wrap_uint (steps m0 + 1)\<rparr> = m1"
      by (simp add: m1_def m0 t1 wrap_int_small wrap_uint_def)
    have g1: "\<not> maxTapeLength m0 \<le> len (fmupd (carriage m0) (Write t1) (maps h0 (tape m0)))"
      using n by (simp add: m0 h0 t1 e len_ones)
    have g2: "\<not> (0 < maxSteps m0 \<and> maxSteps m0 \<le> wrap_uint (steps m0 + 1))"
      using cfg(6) by (simp add: m0 wrap_uint_def)
    show ?thesis
      by (simp only: eq wt mm g1 g2 if_False)
  qed
  have m1: "carriage m1 = - 1" "tape m1 = brk h" "state m1 = ''Q1''" "steps m1 = 1"
    "terminalState m1 = ''Q0''" "alphabet m1 = {blank, one}" "program m1 = increment_program"
    "maxTapeLength m1 = 20" "maxSteps m1 = maxSteps m"
    by (simp_all add: m1_def m0)
  have r1: "read h0 m1 = blank"
    by (simp add: read_def m1 h0 ones_lookup)
  have l1: "lookup_transition increment_program ''Q1'' blank = Some t2"
    by (simp add: lookup_transition_def increment_program_def t2_def blank_neq_one)
  have s2: "step h0 m1 = (h2, m2, Inr True)"
  proof -
    have eq: "step h0 m1 =
     (write_tape h0 m1 (Write t2),
      m1\<lparr>carriage := wrap_int (carriage m1 + Move t2), state := NextState t2,
        steps := wrap_uint (steps m1 + 1)\<rparr>,
      if maxTapeLength m1 \<le> len (fmupd (carriage m1) (Write t2) (maps h0 (tape m1)))
      then Inl ErrTapeOver
      else if 0 < maxSteps m1 \<and> maxSteps m1 \<le> wrap_uint (steps m1 + 1)
      then Inl ErrStepsExceeded
      else Inr True)"
      by (rule step_applied) (simp_all add: r1 l1 m1 t2 blank_neq_one)
    have e: "fmupd (- 1) one (ones 0 (int n)) = ones (- 1) (int n)"
      using ones_extend [of 0 "int n"] by simp
    have wt: "write_tape h0 m1 (Write t2) = h2"
      by (simp add: write_tape_def m1 h0 t2 e h2_def)
    have mm: "m1\<lparr>carriage := wrap_int (carriage m1 + Move t2), state := NextState t2,
        steps := wrap_uint (steps m1 + 1)\<rparr> = m2"
      by (simp add: m1_def m2_def t2 wrap_int_small wrap_uint_def)
    have g1: "\<not> maxTapeLength m1 \<le> len (fmupd (carriage m1) (Write t2) (maps h0 (tape m1)))"
      using n by (simp add: m1 h0 t2 e len_ones)
    have g2: "\<not> (0 < maxSteps m1 \<and> maxSteps m1 \<le> wrap_uint (steps m1 + 1))"
      using cfg(6) by (simp add: m1 wrap_uint_def)
    show ?thesis
      by (simp only: eq wt mm g1 g2 if_False)
  qed
  have s3: "step h2 m2 = (h2, m2, Inr False)"
    by (rule step_halted) (simp add: m2_def m0)
  have "ExecCtx None h m 0 input = ExecLoop None 0 h0 m0"
    by (simp add: ExecCtx_unfold h0_def m0_def)
  also have "\<dots> = ExecLoop None 1 h0 m1"
    using ExecLoop_continue [OF nc s1] by simp
  also have "\<dots> = ExecLoop None 2 h2 m2"
    using ExecLoop_continue [OF nc s2] by (simp add: numeral_2_eq_2)
  also have "\<dots> = Some (h2, m2, Inr (tape m2))"
    by (rule ExecLoop_halt [OF nc s3])
  finally show ?thesis
    by (simp add: h2_def m2_def h0_def m0_def start_machine_simps)
qed

lemma runes_one: "insert blank (set (runes ''1'')) = {blank, one}"
  by (simp add: one_def rune_of_def)

lemma runes_empty: "insert blank (set (runes [])) = {blank}"
  by simp

lemma increment_program_valid:
  "\<forall>st ts s t. increment_program st = Some ts \<and> ts s = Some t \<longrightarrow>
     check_transition increment_program {blank, one} ''Q0'' t = None"
  by (auto simp: increment_program_def check_transition_def Left_def Right_def Stay_def
      split: if_splits)

lemma NewMachine_increment:
  assumes "range_of increment_program ord"
  shows "NewMachine ord h ''1'' ''Q1'' ''Q0'' increment_program 20 10 =
     (h\<lparr>maps := (maps h)(brk h := fmempty), brk := Suc (brk h)\<rparr>,
      Inr (test_machine increment_program {blank, one} 20 10 (brk h)))"
  using NewMachine_valid [OF assms, of "''Q1''" "''Q0''" 20 "''1''" h 10] increment_program_valid
  by (simp only: runes_one test_machine_def) simp

lemmas run_eval = ExecLoop.simps ctx_Err_def step_def read_def write_tape_def move_def
  lookup_transition_def Let_def Left_def Right_def Stay_def wrap_int_def wrap_uint_def
  len_simps start_store_simps start_machine_def test_machine_def

lemma left_steps_exceeded:
  assumes "input \<noteq> brk h" and "maps h input = fmempty"
  shows "\<exists>h' m'. Exec h (test_machine left_program {blank} 10000 10 t) 0 input
           = Some (h', m', Inl ErrStepsExceeded)"
  using assms
  by (simp add: Exec_def ExecCtx_unfold left_program_def run_eval)

lemma left_tape_over:
  assumes "input \<noteq> brk h" and "maps h input = fmempty"
  shows "\<exists>h' m'. Exec h (test_machine left_program {blank} 10 10000 t) 0 input
           = Some (h', m', Inl ErrTapeOver)"
  using assms
  by (simp add: Exec_def ExecCtx_unfold left_program_def run_eval)

lemma stay_infinite_loop:
  assumes "input \<noteq> brk h" and "maps h input = fmempty"
  shows "\<exists>h' m'. Exec h (test_machine stay_program {blank} maxTape 0 t) 0 input
           = Some (h', m', Inl ErrInfiniteLoop)"
  using assms
  by (simp add: Exec_def ExecCtx_unfold stay_program_def run_eval)

lemma left_program_valid:
  "\<forall>st ts s t. left_program st = Some ts \<and> ts s = Some t \<longrightarrow>
     check_transition left_program {blank} ''Q0'' t = None"
  by (auto simp: left_program_def check_transition_def Left_def Right_def Stay_def
      split: if_splits)

lemma stay_program_valid:
  "\<forall>st ts s t. stay_program st = Some ts \<and> ts s = Some t \<longrightarrow>
     check_transition stay_program {blank} ''Q0'' t = None"
  by (auto simp: stay_program_def check_transition_def Left_def Right_def Stay_def
      split: if_splits)

lemma NewMachine_left:
  assumes "range_of left_program ord" and "0 < maxTape"
  shows "NewMachine ord h [] ''Q1'' ''Q0'' left_program maxTape maxStep =
     (h\<lparr>maps := (maps h)(brk h := fmempty), brk := Suc (brk h)\<rparr>,
      Inr (test_machine left_program {blank} maxTape maxStep (brk h)))"
  using NewMachine_valid [OF assms(1), of "''Q1''" "''Q0''" maxTape "[]" h maxStep]
    left_program_valid assms(2)
  by (simp only: runes_empty test_machine_def) simp

lemma NewMachine_stay:
  assumes "range_of stay_program ord" and "0 < maxTape"
  shows "NewMachine ord h [] ''Q1'' ''Q0'' stay_program maxTape maxStep =
     (h\<lparr>maps := (maps h)(brk h := fmempty), brk := Suc (brk h)\<rparr>,
      Inr (test_machine stay_program {blank} maxTape maxStep (brk h)))"
  using NewMachine_valid [OF assms(1), of "''Q1''" "''Q0''" maxTape "[]" h maxStep]
    stay_program_valid assms(2)
  by (simp only: runes_empty test_machine_def) simp

text \<open>
  C5. On an empty input, from carriage \<open>0\<close>: the machine built from the Left program
  with maximum tape length 10000 and 10 steps fails with StepsExceeded; built with
  maximum tape length 10 and 10000 steps it fails with TapeOver; and the machine built
  from the Stay program with no step limit fails with InfiniteLoop, whatever its
  maximum tape length. The construction succeeds in whatever order validation visits
  the program, and the input is any allocated map that is empty.
\<close>

theorem limit_errors_of_the_tests:
  assumes "input < brk h" and "maps h input = fmempty"
  shows "(range_of left_program ord \<longrightarrow>
            (\<exists>h1 m. NewMachine ord h0 [] ''Q1'' ''Q0'' left_program 10000 10 = (h1, Inr m) \<and>
               (\<exists>h' m'. Exec h m 0 input = Some (h', m', Inl ErrStepsExceeded))))
       \<and> (range_of left_program ord \<longrightarrow>
            (\<exists>h1 m. NewMachine ord h0 [] ''Q1'' ''Q0'' left_program 10 10000 = (h1, Inr m) \<and>
               (\<exists>h' m'. Exec h m 0 input = Some (h', m', Inl ErrTapeOver))))
       \<and> (range_of stay_program ord \<and> 0 < maxTape \<longrightarrow>
            (\<exists>h1 m. NewMachine ord h0 [] ''Q1'' ''Q0'' stay_program maxTape 0 = (h1, Inr m) \<and>
               (\<exists>h' m'. Exec h m 0 input = Some (h', m', Inl ErrInfiniteLoop))))"
proof -
  from assms have inp: "input \<noteq> brk h"
    by simp
  have 1: "\<exists>h1 m. NewMachine ord h0 [] ''Q1'' ''Q0'' left_program 10000 10 = (h1, Inr m) \<and>
               (\<exists>h' m'. Exec h m 0 input = Some (h', m', Inl ErrStepsExceeded))"
    if "range_of left_program ord"
    using NewMachine_left [OF that, of 10000 h0 10] left_steps_exceeded [OF inp assms(2), of "brk h0"]
    by simp
  have 2: "\<exists>h1 m. NewMachine ord h0 [] ''Q1'' ''Q0'' left_program 10 10000 = (h1, Inr m) \<and>
               (\<exists>h' m'. Exec h m 0 input = Some (h', m', Inl ErrTapeOver))"
    if "range_of left_program ord"
    using NewMachine_left [OF that, of 10 h0 10000] left_tape_over [OF inp assms(2), of "brk h0"]
    by simp
  have 3: "\<exists>h1 m. NewMachine ord h0 [] ''Q1'' ''Q0'' stay_program maxTape 0 = (h1, Inr m) \<and>
               (\<exists>h' m'. Exec h m 0 input = Some (h', m', Inl ErrInfiniteLoop))"
    if "range_of stay_program ord \<and> 0 < maxTape"
    using NewMachine_stay [of ord maxTape h0 0] that
      stay_infinite_loop [OF inp assms(2), of maxTape "brk h0"]
    by simp
  from 1 2 3 show ?thesis
    by blast
qed

text \<open>
  The three tests: the machine gets its tape at address \<open>0\<close> of the empty store and
  the caller's empty input is at address \<open>1\<close>.
\<close>

theorem limit_errors_of_the_tests_witness:
  "(1::nat) < brk (two_maps fmempty fmempty) \<and> maps (two_maps fmempty fmempty) 1 = fmempty \<and>
   range_of left_program [(''Q1'', [blank])] \<and> range_of stay_program [(''Q1'', [blank])] \<and>
   (\<exists>h1 m. NewMachine [(''Q1'', [blank])] empty_store [] ''Q1'' ''Q0'' left_program 10000 10 = (h1, Inr m) \<and>
      (\<exists>h' m'. Exec (two_maps fmempty fmempty) m 0 1 = Some (h', m', Inl ErrStepsExceeded))) \<and>
   (\<exists>h1 m. NewMachine [(''Q1'', [blank])] empty_store [] ''Q1'' ''Q0'' left_program 10 10000 = (h1, Inr m) \<and>
      (\<exists>h' m'. Exec (two_maps fmempty fmempty) m 0 1 = Some (h', m', Inl ErrTapeOver))) \<and>
   (\<exists>h1 m. NewMachine [(''Q1'', [blank])] empty_store [] ''Q1'' ''Q0'' stay_program 10000 0 = (h1, Inr m) \<and>
      (\<exists>h' m'. Exec (two_maps fmempty fmempty) m 0 1 = Some (h', m', Inl ErrInfiniteLoop)))"
proof -
  have b: "(1::nat) < brk (two_maps fmempty fmempty)" "maps (two_maps fmempty fmempty) 1 = fmempty"
    by (simp_all add: two_maps_def)
  have r: "range_of left_program [(''Q1'', [blank])]" "range_of stay_program [(''Q1'', [blank])]"
    by (simp_all add: range_of_def left_program_def stay_program_def)
  from limit_errors_of_the_tests [OF b, of "[(''Q1'', [blank])]" empty_store 10000] r b
  show ?thesis
    by simp
qed

text \<open>
  C6. The machine built for the alphabet \<open>1\<close> from the increment program, with maximum
  tape length 20 and 10 steps, run from carriage \<open>0\<close> on an input holding \<open>n + 1\<close>
  ones in the cells \<open>0\<close> to \<open>n\<close>, for \<open>n\<close> from 0 to 9: the run halts and returns a
  tape holding ones in the cells \<open>-1\<close> to \<open>n\<close> and nothing else, which are \<open>n + 2\<close>
  cells, and the input still holds what it held. This is so in whatever state earlier
  runs have left the carriage, tape, state and step counter of the machine.
\<close>

theorem increment_machine_adds_one:
  assumes "range_of increment_program ord" and "n \<le> 9"
    and "input < brk h" and "maps h input = ones 0 (int n)"
  shows "\<exists>h1 m. NewMachine ord h0 ''1'' ''Q1'' ''Q0'' increment_program 20 10 = (h1, Inr m) \<and>
     (\<forall>car t st k. \<exists>h' m'.
        Exec h (m\<lparr>carriage := car, tape := t, state := st, steps := k\<rparr>) 0 input
          = Some (h', m', Inr (brk h)) \<and>
        maps h' (brk h) = ones (- 1) (int n) \<and> len (maps h' (brk h)) = n + 2 \<and>
        maps h' input = ones 0 (int n))"
proof -
  let ?m = "test_machine increment_program {blank, one} 20 10 (brk h0)"
  have run: "\<exists>h' m'.
        Exec h (?m\<lparr>carriage := car, tape := t, state := st, steps := k\<rparr>) 0 input
          = Some (h', m', Inr (brk h)) \<and>
        maps h' (brk h) = ones (- 1) (int n) \<and> len (maps h' (brk h)) = n + 2 \<and>
        maps h' input = ones 0 (int n)" for car t st k
  proof -
    let ?m' = "?m\<lparr>carriage := car, tape := t, state := st, steps := k\<rparr>"
    let ?h' = "(start_store h input)\<lparr>maps := (maps (start_store h input))(brk h := ones (- 1) (int n))\<rparr>"
    have "ExecCtx None h ?m' 0 input =
      Some (?h', (start_machine h ?m' 0)\<lparr>carriage := - 1, state := ''Q0'', steps := 2\<rparr>, Inr (brk h))"
      using assms(2-4) by (intro increment_run) (simp_all add: test_machine_def)
    moreover have "maps ?h' (brk h) = ones (- 1) (int n)"
      by simp
    moreover have "len (ones (- 1) (int n)) = n + 2"
      by (simp add: len_ones)
    moreover have "maps ?h' input = ones 0 (int n)"
      using assms(3,4) by (simp add: start_store_simps)
    ultimately show ?thesis
      by (simp add: Exec_def)
  qed
  with NewMachine_increment [OF assms(1), of h0] show ?thesis
    by blast
qed

text \<open>The input \<open>1111\<close>, the number three, at address \<open>1\<close>.\<close>

theorem increment_machine_adds_one_witness:
  "range_of increment_program [(''Q1'', [blank, one])] \<and> (3::nat) \<le> 9 \<and>
   1 < brk (two_maps fmempty (ones 0 3)) \<and> maps (two_maps fmempty (ones 0 3)) 1 = ones 0 3 \<and>
   (\<exists>h1 m. NewMachine [(''Q1'', [blank, one])] empty_store ''1'' ''Q1'' ''Q0'' increment_program 20 10 = (h1, Inr m) \<and>
      (\<exists>h' m'. Exec (two_maps fmempty (ones 0 3)) m 0 1 = Some (h', m', Inr 2) \<and>
         maps h' 2 = ones (- 1) 3 \<and> len (maps h' 2) = 5))"
proof -
  have r: "range_of increment_program [(''Q1'', [blank, one])]"
    by (auto simp: range_of_def increment_program_def blank_neq_one)
  have b: "1 < brk (two_maps fmempty (ones 0 3))" "maps (two_maps fmempty (ones 0 3)) 1 = ones 0 (int 3)"
    "brk (two_maps fmempty (ones 0 3)) = 2"
    by (simp_all add: two_maps_def)
  from increment_machine_adds_one [OF r _ b(1,2), of empty_store]
  obtain h1 m where nm: "NewMachine [(''Q1'', [blank, one])] empty_store ''1'' ''Q1'' ''Q0'' increment_program 20 10 = (h1, Inr m)"
    and run: "\<And>car t st k. \<exists>h' m'.
        Exec (two_maps fmempty (ones 0 3)) (m\<lparr>carriage := car, tape := t, state := st, steps := k\<rparr>) 0 1
          = Some (h', m', Inr (brk (two_maps fmempty (ones 0 3)))) \<and>
        maps h' (brk (two_maps fmempty (ones 0 3))) = ones (- 1) (int 3) \<and>
        len (maps h' (brk (two_maps fmempty (ones 0 3)))) = 3 + 2 \<and>
        maps h' 1 = ones 0 (int 3)"
    by auto
  from run [where car = "carriage m" and t = "tape m" and st = "state m" and k = "steps m"]
  have "\<exists>h' m'. Exec (two_maps fmempty (ones 0 3)) m 0 1 = Some (h', m', Inr 2) \<and>
         maps h' 2 = ones (- 1) 3 \<and> len (maps h' 2) = 5"
    by (auto simp: b(3))
  with nm r b show ?thesis
    by auto
qed

subsection \<open>The tape a run returns\<close>

text \<open>
  The run of the README machine on the input \<open>1\<close> at address \<open>1\<close>, the machine having
  its first tape at address \<open>0\<close>: the tape of the run is allocated at address \<open>2\<close>.
\<close>

lemma increment_run_example:
  "ExecCtx None (two_maps fmempty (ones 0 0)) (test_machine increment_program {blank, one} 20 10 0) 0 1 =
     Some ((start_store (two_maps fmempty (ones 0 0)) 1)
             \<lparr>maps := (maps (start_store (two_maps fmempty (ones 0 0)) 1))(2 := ones (- 1) 0)\<rparr>,
           (start_machine (two_maps fmempty (ones 0 0))
              (test_machine increment_program {blank, one} 20 10 0) 0)
             \<lparr>carriage := - 1, state := ''Q0'', steps := 2\<rparr>,
           Inr 2)"
  using increment_run [of "test_machine increment_program {blank, one} 20 10 0" 0 1
      "two_maps fmempty (ones 0 0)"]
  by (simp add: test_machine_def two_maps_def)

text \<open>
  C1, as stated: the tape returned on a successful halt would be a map of which the
  machine keeps no alias. It is not so: \<open>ExecCtx\<close> returns \<open>m.tape\<close> itself. In the
  run above the returned reference is address \<open>2\<close>, and address \<open>2\<close> is what the tape
  field of the machine holds after the run.
\<close>

theorem returned_tape_aliases_machine_tape_counterexample:
  "map_option (snd \<circ> snd)
     (Exec (two_maps fmempty (ones 0 0)) (test_machine increment_program {blank, one} 20 10 0) 0 1)
     = Some (Inr 2) \<and>
   map_option (tape \<circ> fst \<circ> snd)
     (Exec (two_maps fmempty (ones 0 0)) (test_machine increment_program {blank, one} 20 10 0) 0 1)
     = Some 2"
  unfolding Exec_def increment_run_example
  by (simp add: start_machine_simps two_maps_def)

text \<open>
  C1, amended. A run of \<open>ExecCtx\<close> that returns has changed no map that existed before
  it, the caller's input among them; it has allocated exactly one map, which is the
  tape the machine refers to afterwards; a tape returned on a successful halt is that
  very map, so the machine's tape field and the result are the same object, and it is
  none of the maps that existed before the run. The tape reference a machine holds
  when a run starts has no effect on the run: it is replaced before it is read.
  The input is copied: for an allocated input the run is the loop started on the
  store in which the new map holds what the input holds, with the machine reset and
  referring to the new map; every cell of the input is a cell of the final tape; and
  when the start state is the terminal state, so that no step is made, the returned
  tape holds exactly what the input holds.
\<close>

theorem ExecCtx_tape_ownership:
  assumes "ExecCtx c h m c0 input = Some (h', m', r)"
  shows "(\<forall>a. a < brk h \<longrightarrow> maps h' a = maps h a) \<and>
         brk h' = Suc (brk h) \<and> tape m' = brk h \<and>
         (\<forall>a. r = Inr a \<longrightarrow> a = tape m' \<and> \<not> a < brk h) \<and>
         (\<forall>t. ExecCtx c h (m\<lparr>tape := t\<rparr>) c0 input = ExecCtx c h m c0 input) \<and>
         (input < brk h \<longrightarrow>
            ExecLoop c 0 (h\<lparr>maps := (maps h)(brk h := maps h input), brk := Suc (brk h)\<rparr>)
              (m\<lparr>carriage := c0, state := startState m, steps := 0, tape := brk h\<rparr>)
              = Some (h', m', r)) \<and>
         (input < brk h \<longrightarrow> fmdom (maps h input) |\<subseteq>| fmdom (maps h' (tape m'))) \<and>
         (input < brk h \<and> startState m = terminalState m \<and> \<not> ctx_Err c 0 \<longrightarrow>
            r = Inr (brk h) \<and> maps h' (brk h) = maps h input)"
proof -
  have old: "(\<forall>a. a < brk h \<longrightarrow> maps h' a = maps h a) \<and>
         brk h' = Suc (brk h) \<and> tape m' = brk h \<and>
         (\<forall>a. r = Inr a \<longrightarrow> a = tape m' \<and> \<not> a < brk h) \<and>
         (\<forall>t. ExecCtx c h (m\<lparr>tape := t\<rparr>) c0 input = ExecCtx c h m c0 input)"
    using ExecCtx_effect [OF assms] ExecCtx_ignores_tape
    by auto
  have start: "start_store h input = h\<lparr>maps := (maps h)(brk h := maps h input), brk := Suc (brk h)\<rparr>"
    if "input < brk h"
    using that by (simp add: start_store_def make_map_def)
  have loop: "ExecLoop c 0 (start_store h input) (start_machine h m c0) = Some (h', m', r)"
    using assms by (simp only: ExecCtx_unfold)
  have copy: "ExecLoop c 0 (h\<lparr>maps := (maps h)(brk h := maps h input), brk := Suc (brk h)\<rparr>)
              (m\<lparr>carriage := c0, state := startState m, steps := 0, tape := brk h\<rparr>)
              = Some (h', m', r)"
    if "input < brk h"
    using loop by (simp only: start [OF that] start_machine_def)
  have cells: "fmdom (maps h input) |\<subseteq>| fmdom (maps h' (tape m'))" if "input < brk h"
    using ExecCtx_effect [OF assms] that by auto
  have halted: "r = Inr (brk h) \<and> maps h' (brk h) = maps h input"
    if a: "input < brk h \<and> startState m = terminalState m \<and> \<not> ctx_Err c 0"
  proof -
    from a have t: "state (start_machine h m c0) = terminalState (start_machine h m c0)"
      by (simp add: start_machine_simps)
    from a have nc: "\<not> ctx_Err c 0"
      by simp
    have "ExecLoop c 0 (start_store h input) (start_machine h m c0) =
        Some (start_store h input, start_machine h m c0, Inr (tape (start_machine h m c0)))"
      by (rule ExecLoop_halt [OF nc step_halted [OF t]])
    then have "Some (h', m', r) =
        Some (start_store h input, start_machine h m c0, Inr (tape (start_machine h m c0)))"
      by (rule trans [OF loop [symmetric]])
    then have "h' = start_store h input" and "r = Inr (tape (start_machine h m c0))"
      by simp_all
    with a show ?thesis
      by (simp add: start_store_simps start_machine_simps)
  qed
  from old copy cells halted show ?thesis
    by blast
qed

text \<open>
  The run above: the input at address \<open>1\<close> is unchanged, the result is address \<open>2\<close>,
  and the loop has started on the store whose address \<open>2\<close> holds the input's \<open>1\<close>.
\<close>

theorem ExecCtx_tape_ownership_witness:
  "ExecCtx None (two_maps fmempty (ones 0 0)) (test_machine increment_program {blank, one} 20 10 0) 0 1 =
     Some ((start_store (two_maps fmempty (ones 0 0)) 1)
             \<lparr>maps := (maps (start_store (two_maps fmempty (ones 0 0)) 1))(2 := ones (- 1) 0)\<rparr>,
           (start_machine (two_maps fmempty (ones 0 0))
              (test_machine increment_program {blank, one} 20 10 0) 0)
             \<lparr>carriage := - 1, state := ''Q0'', steps := 2\<rparr>,
           Inr 2)
   \<and> maps ((start_store (two_maps fmempty (ones 0 0)) 1)
             \<lparr>maps := (maps (start_store (two_maps fmempty (ones 0 0)) 1))(2 := ones (- 1) 0)\<rparr>) 1
       = ones 0 0
   \<and> tape ((start_machine (two_maps fmempty (ones 0 0))
              (test_machine increment_program {blank, one} 20 10 0) 0)
             \<lparr>carriage := - 1, state := ''Q0'', steps := 2\<rparr>) = 2
   \<and> (1::nat) < brk (two_maps fmempty (ones 0 0))
   \<and> ExecLoop None 0
        ((two_maps fmempty (ones 0 0))
           \<lparr>maps := (maps (two_maps fmempty (ones 0 0)))(2 := ones 0 0), brk := 3\<rparr>)
        ((test_machine increment_program {blank, one} 20 10 0)
           \<lparr>carriage := 0, state := ''Q1'', steps := 0, tape := 2\<rparr>)
       = Some ((start_store (two_maps fmempty (ones 0 0)) 1)
             \<lparr>maps := (maps (start_store (two_maps fmempty (ones 0 0)) 1))(2 := ones (- 1) 0)\<rparr>,
           (start_machine (two_maps fmempty (ones 0 0))
              (test_machine increment_program {blank, one} 20 10 0) 0)
             \<lparr>carriage := - 1, state := ''Q0'', steps := 2\<rparr>,
           Inr 2)"
proof -
  have b: "brk (two_maps fmempty (ones 0 0)) = 2" "maps (two_maps fmempty (ones 0 0)) 1 = ones 0 0"
    "maps (two_maps fmempty (ones 0 0)) (Suc 0) = ones 0 0"
    "startState (test_machine increment_program {blank, one} 20 10 0) = ''Q1''"
    "terminalState (test_machine increment_program {blank, one} 20 10 0) = ''Q0''"
    by (simp_all add: two_maps_def test_machine_def)
  from ExecCtx_tape_ownership [OF increment_run_example]
  show ?thesis
    unfolding increment_run_example
    by (simp add: b start_store_simps start_machine_simps numeral_3_eq_3)
qed

subsection \<open>Parsing\<close>

lemma ParseTransition_none:
  "\<forall>(s, d) \<in> set ord. s \<notin> set field \<Longrightarrow> ParseTransition ord field = Inl ErrParseTransition"
  by (induction ord) (auto simp: ContainsRune_def)

lemma ParseTransition_only:
  assumes "(sep, dir) \<in> set ord" and "sep \<in> set field"
    and "\<forall>(s, d) \<in> set ord. s \<noteq> sep \<longrightarrow> s \<notin> set field"
    and "\<forall>(s, d) \<in> set ord. s = sep \<longrightarrow> d = dir"
  shows "ParseTransition ord field = parse_at sep dir field"
  using assms
proof (induction ord)
  case Nil
  then show ?case by simp
next
  case (Cons p ord)
  obtain s d where p: "p = (s, d)"
    by (cases p)
  show ?case
  proof (cases "s = sep")
    case True
    with Cons.prems p have "d = dir"
      by auto
    with True p Cons.prems(2) show ?thesis
      by (simp add: ContainsRune_def parse_at_def Let_def)
  next
    case False
    with Cons.prems p have "s \<notin> set field" and "(sep, dir) \<in> set ord"
      by auto
    with Cons p show ?thesis
      by (simp add: ContainsRune_def)
  qed
qed

lemma table_range_set:
  "table_range ord \<Longrightarrow> set ord = {(CHR ''>'', Right), (CHR ''<'', Left), (CHR ''.'', Stay)}"
  by (simp add: table_range_def directionTable_def)

lemma ParseTransition_by_separator:
  assumes "table_range ord"
  shows "CHR ''>'' \<in> set field \<Longrightarrow> CHR ''<'' \<notin> set field \<Longrightarrow> CHR ''.'' \<notin> set field \<Longrightarrow>
           ParseTransition ord field = parse_at CHR ''>'' Right field"
    and "CHR ''<'' \<in> set field \<Longrightarrow> CHR ''>'' \<notin> set field \<Longrightarrow> CHR ''.'' \<notin> set field \<Longrightarrow>
           ParseTransition ord field = parse_at CHR ''<'' Left field"
    and "CHR ''.'' \<in> set field \<Longrightarrow> CHR ''>'' \<notin> set field \<Longrightarrow> CHR ''<'' \<notin> set field \<Longrightarrow>
           ParseTransition ord field = parse_at CHR ''.'' Stay field"
    and "CHR ''.'' \<notin> set field \<Longrightarrow> CHR ''>'' \<notin> set field \<Longrightarrow> CHR ''<'' \<notin> set field \<Longrightarrow>
           ParseTransition ord field = Inl ErrParseTransition"
proof -
  note s = table_range_set [OF assms]
  show "CHR ''>'' \<in> set field \<Longrightarrow> CHR ''<'' \<notin> set field \<Longrightarrow> CHR ''.'' \<notin> set field \<Longrightarrow>
           ParseTransition ord field = parse_at CHR ''>'' Right field"
    by (rule ParseTransition_only) (auto simp: s)
  show "CHR ''<'' \<in> set field \<Longrightarrow> CHR ''>'' \<notin> set field \<Longrightarrow> CHR ''.'' \<notin> set field \<Longrightarrow>
           ParseTransition ord field = parse_at CHR ''<'' Left field"
    by (rule ParseTransition_only) (auto simp: s)
  show "CHR ''.'' \<in> set field \<Longrightarrow> CHR ''>'' \<notin> set field \<Longrightarrow> CHR ''<'' \<notin> set field \<Longrightarrow>
           ParseTransition ord field = parse_at CHR ''.'' Stay field"
    by (rule ParseTransition_only) (auto simp: s)
  show "CHR ''.'' \<notin> set field \<Longrightarrow> CHR ''>'' \<notin> set field \<Longrightarrow> CHR ''<'' \<notin> set field \<Longrightarrow>
           ParseTransition ord field = Inl ErrParseTransition"
    by (rule ParseTransition_none) (auto simp: s)
qed

lemma Split_not_Nil: "Split s sep \<noteq> []"
  by (induction s) (auto split: list.splits)

lemma Split_first:
  "c \<noteq> sep \<Longrightarrow> Split (c # s) sep ! 0 = c # Split s sep ! 0"
  using Split_not_Nil [of s sep] by (cases "Split s sep") auto

lemma ParseTransition_underscore:
  assumes "\<forall>(s, d) \<in> set ord. s \<noteq> CHR ''_''"
    and "ParseTransition ord (CHR ''_'' # rest) = Inr t"
  shows "Write t = blank"
  using assms
proof (induction ord)
  case Nil
  then show ?case by simp
next
  case (Cons p ord)
  obtain s d where p: "p = (s, d)"
    by (cases p)
  with Cons.prems have ne: "CHR ''_'' \<noteq> s"
    by auto
  show ?case
  proof (cases "ContainsRune (CHR ''_'' # rest) s")
    case True
    have "fst (DecodeRuneInString (Split (CHR ''_'' # rest) s ! 0)) = rune_of CHR ''_''"
      by (simp only: Split_first [OF ne]) (simp add: rune_of_def)
    with True p Cons.prems(2) show ?thesis
      by (auto simp: Let_def split: if_splits)
  next
    case False
    with Cons p show ?thesis
      by auto
  qed
qed

lemma table_range_directionTable: "table_range directionTable"
  by (simp add: table_range_def directionTable_def)

lemma table_range_no_underscore:
  "table_range ord \<Longrightarrow> \<forall>(s, d) \<in> set ord. s \<noteq> CHR ''_''"
  by (simp add: table_range_set)

text \<open>
  C3. In whatever order the direction table is ranged over, \<open>ParseTransition\<close> maps
  the field \<open>1>2\<close> to next state \<open>Q2\<close>, write \<open>1\<close>, move Right, \<open>1<3\<close> to \<open>Q3\<close>, \<open>1\<close>,
  Left, and \<open>1.2\<close> to \<open>Q2\<close>, \<open>1\<close>, Stay; it fails with ParseTransition on the empty
  field and on \<open>Q2\<close>, \<open>Q2>\<close> and \<open>1!2\<close>; and a symbol part that starts with an
  underscore gives the blank as write symbol, as for the field \<open>_>2\<close>.
\<close>

theorem ParseTransition_fields:
  assumes "table_range ord"
  shows "ParseTransition ord ''1>2'' = Inr \<lparr>NextState = ''Q2'', Move = Right, Write = one\<rparr>
       \<and> ParseTransition ord ''1<3'' = Inr \<lparr>NextState = ''Q3'', Move = Left, Write = one\<rparr>
       \<and> ParseTransition ord ''1.2'' = Inr \<lparr>NextState = ''Q2'', Move = Stay, Write = one\<rparr>
       \<and> ParseTransition ord [] = Inl ErrParseTransition
       \<and> ParseTransition ord ''Q2'' = Inl ErrParseTransition
       \<and> ParseTransition ord ''Q2>'' = Inl ErrParseTransition
       \<and> ParseTransition ord ''1!2'' = Inl ErrParseTransition
       \<and> ParseTransition ord ''_>2'' = Inr \<lparr>NextState = ''Q2'', Move = Right, Write = blank\<rparr>
       \<and> (\<forall>rest t. ParseTransition ord (CHR ''_'' # rest) = Inr t \<longrightarrow> Write t = blank)"
proof -
  note by_sep = ParseTransition_by_separator [OF assms]
  have 1: "ParseTransition ord ''1>2'' = Inr \<lparr>NextState = ''Q2'', Move = Right, Write = one\<rparr>"
    by (subst by_sep(1)) (simp_all add: parse_at_def one_def rune_of_def)
  have 2: "ParseTransition ord ''1<3'' = Inr \<lparr>NextState = ''Q3'', Move = Left, Write = one\<rparr>"
    by (subst by_sep(2)) (simp_all add: parse_at_def one_def rune_of_def)
  have 3: "ParseTransition ord ''1.2'' = Inr \<lparr>NextState = ''Q2'', Move = Stay, Write = one\<rparr>"
    by (subst by_sep(3)) (simp_all add: parse_at_def one_def rune_of_def)
  have 4: "ParseTransition ord [] = Inl ErrParseTransition"
    by (rule by_sep(4)) simp_all
  have 5: "ParseTransition ord ''Q2'' = Inl ErrParseTransition"
    by (rule by_sep(4)) simp_all
  have 6: "ParseTransition ord ''Q2>'' = Inl ErrParseTransition"
    by (subst by_sep(1)) (simp_all add: parse_at_def)
  have 7: "ParseTransition ord ''1!2'' = Inl ErrParseTransition"
    by (rule by_sep(4)) simp_all
  have 8: "ParseTransition ord ''_>2'' = Inr \<lparr>NextState = ''Q2'', Move = Right, Write = blank\<rparr>"
    by (subst by_sep(1)) (simp_all add: parse_at_def rune_of_def)
  have 9: "\<forall>rest t. ParseTransition ord (CHR ''_'' # rest) = Inr t \<longrightarrow> Write t = blank"
    using ParseTransition_underscore [OF table_range_no_underscore [OF assms]] by blast
  from 1 2 3 4 5 6 7 8 9 show ?thesis
    by blast
qed

text \<open>The order in which the table is written.\<close>

theorem ParseTransition_fields_witness:
  "table_range directionTable
   \<and> ParseTransition directionTable ''1>2'' = Inr \<lparr>NextState = ''Q2'', Move = Right, Write = one\<rparr>
   \<and> ParseTransition directionTable ''1<3'' = Inr \<lparr>NextState = ''Q3'', Move = Left, Write = one\<rparr>
   \<and> ParseTransition directionTable ''1.2'' = Inr \<lparr>NextState = ''Q2'', Move = Stay, Write = one\<rparr>
   \<and> ParseTransition directionTable ''Q2>'' = Inl ErrParseTransition
   \<and> ParseTransition directionTable ''_.7'' = Inr \<lparr>NextState = ''Q7'', Move = Stay, Write = blank\<rparr>"
proof -
  have "ParseTransition directionTable ''_.7'' = Inr \<lparr>NextState = ''Q7'', Move = Stay, Write = blank\<rparr>"
    by (simp add: directionTable_def ContainsRune_def rune_of_def)
  with ParseTransition_fields [OF table_range_directionTable] table_range_directionTable
  show ?thesis
    by simp
qed

text \<open>
  C7, which the code does not meet. The field \<open>.>1\<close> is a symbol, a separator and
  digits, and it contains two of the three separator characters, so what
  \<open>ParseTransition\<close> returns depends on which of them the range over the table meets
  first. Reading the same two lines, without cancellation or scanner error, gives
  a program when the table is ranged over as written and the error ParseTransition
  when the dot comes first.
\<close>

theorem ReadCtx_depends_on_range_order:
  "table_range directionTable \<and> table_range dot_first \<and>
   ReadCtx None (\<lambda>line i. directionTable) dot_program_lines False
     = Return (Inr [''Q1'' \<mapsto> [one \<mapsto> \<lparr>NextState = ''Q1'', Move = Right, Write = rune_of CHR ''.''\<rparr>]]) \<and>
   ReadCtx None (\<lambda>line i. dot_first) dot_program_lines False = Return (Inl ErrParseTransition)"
proof -
  have "table_range dot_first"
    by (auto simp: table_range_def directionTable_def dot_first_def)
  moreover have "ReadCtx None (\<lambda>line i. directionTable) dot_program_lines False
     = Return (Inr [''Q1'' \<mapsto> [one \<mapsto> \<lparr>NextState = ''Q1'', Move = Right, Write = rune_of CHR ''.''\<rparr>]])"
    by (simp add: directionTable_def dot_program_lines_def ReadCtx_def
      ctx_Err_def TAB_def is_digit_def ContainsRune_def one_def rune_of_def Let_def)
  moreover have "ReadCtx None (\<lambda>line i. dot_first) dot_program_lines False
     = Return (Inl ErrParseTransition)"
    by (simp add: dot_first_def dot_program_lines_def ReadCtx_def
      ctx_Err_def TAB_def is_digit_def ContainsRune_def Let_def)
  ultimately show ?thesis
    using table_range_directionTable by simp
qed

text \<open>
  C8, which the code does not meet. The second transition of the row is at state
  index \<open>1\<close> and the header has one state: \<open>states[stateIndex]\<close> is out of range and
  \<open>ReadCtx\<close> panics instead of returning.
\<close>

theorem ReadCtx_index_out_of_range:
  "ReadCtx None (\<lambda>line i. directionTable) long_row_lines False = Panic"
  by (simp add: directionTable_def long_row_lines_def ReadCtx_def
      ctx_Err_def TAB_def is_digit_def ContainsRune_def one_def rune_of_def Let_def)

subsection \<open>Where the range order does not matter\<close>

text \<open>
  A field with at most one kind of separator character parses the same in every order,
  and so does a text all of whose fields are such. The panic on a row longer than the
  header is of this kind.
\<close>

lemma ParseTransition_order_independent:
  assumes "table_range ord1" and "table_range ord2" and "one_separator field"
  shows "ParseTransition ord1 field = ParseTransition ord2 field"
proof -
  note a = ParseTransition_by_separator [OF assms(1), of field]
  note b = ParseTransition_by_separator [OF assms(2), of field]
  consider "CHR ''>'' \<in> set field" "CHR ''<'' \<notin> set field" "CHR ''.'' \<notin> set field"
    | "CHR ''<'' \<in> set field" "CHR ''>'' \<notin> set field" "CHR ''.'' \<notin> set field"
    | "CHR ''.'' \<in> set field" "CHR ''>'' \<notin> set field" "CHR ''<'' \<notin> set field"
    | "CHR ''.'' \<notin> set field" "CHR ''>'' \<notin> set field" "CHR ''<'' \<notin> set field"
    using assms(3) by (auto simp: one_separator_def)
  then show ?thesis
  proof cases
    case 1
    then show ?thesis by (simp add: a(1) b(1))
  next
    case 2
    then show ?thesis by (simp add: a(2) b(2))
  next
    case 3
    then show ?thesis by (simp add: a(3) b(3))
  next
    case 4
    then show ?thesis by (simp add: a(4) b(4))
  qed
qed

lemma row_fields_order_independent:
  assumes "\<forall>i. table_range (rng1 i)" and "\<forall>i. table_range (rng2 i)"
    and "\<forall>f \<in> set fs. one_separator f"
  shows "row_fields rng1 states symbol i stateIndex fs prog
       = row_fields rng2 states symbol i stateIndex fs prog"
  using assms(3)
proof (induction fs arbitrary: i stateIndex prog)
  case Nil
  show ?case by simp
next
  case (Cons f fs)
  from assms(1,2) Cons.prems
  have "ParseTransition (rng1 i) f = ParseTransition (rng2 i) f"
    by (intro ParseTransition_order_independent) simp_all
  with Cons show ?case
    by (simp add: Let_def split: sum.splits)
qed

lemma scan_loop_order_independent:
  assumes "\<forall>l i. table_range (rng1 l i)" and "\<forall>l i. table_range (rng2 l i)"
    and "\<forall>line \<in> set lines. \<forall>f \<in> set (Split line TAB). one_separator f"
  shows "scan_loop c rng1 k lines prog states inScope
       = scan_loop c rng2 k lines prog states inScope"
  using assms(3)
proof (induction lines arbitrary: k prog states inScope)
  case Nil
  show ?case by simp
next
  case (Cons line lines)
  have "\<forall>f \<in> set (tl (Split line TAB)). one_separator f"
    using Cons.prems Split_not_Nil [of line TAB] by (auto dest: list.set_sel(2))
  with assms(1,2)
  have row: "row_fields (rng1 k) states symbol 1 0 (tl (Split line TAB)) prog
       = row_fields (rng2 k) states symbol 1 0 (tl (Split line TAB)) prog" for symbol
    by (intro row_fields_order_independent) simp_all
  have ih: "scan_loop c rng1 k' lines prog' states' inScope'
       = scan_loop c rng2 k' lines prog' states' inScope'" for k' prog' states' inScope'
    using Cons.prems by (intro Cons.IH) simp
  show ?case
    by (simp only: scan_loop.simps Let_def row ih)
qed

lemma ReadCtx_order_independent:
  assumes "\<forall>l i. table_range (rng1 l i)" and "\<forall>l i. table_range (rng2 l i)"
    and "\<forall>line \<in> set lines. \<forall>f \<in> set (Split line TAB). one_separator f"
  shows "ReadCtx c rng1 lines scanErr = ReadCtx c rng2 lines scanErr"
  by (simp add: ReadCtx_def scan_loop_order_independent [OF assms])

lemma ReadCtx_long_row_panics:
  assumes "\<forall>l i. table_range (rng l i)"
  shows "ReadCtx None rng long_row_lines False = Panic"
proof -
  have "ReadCtx None rng long_row_lines False
      = ReadCtx None (\<lambda>line i. directionTable) long_row_lines False"
    using assms table_range_directionTable
    by (intro ReadCtx_order_independent)
      (auto simp: long_row_lines_def TAB_def one_separator_def)
  also have "\<dots> = Panic"
    by (simp add: directionTable_def long_row_lines_def ReadCtx_def
      ctx_Err_def TAB_def is_digit_def ContainsRune_def one_def rune_of_def Let_def)
  finally show ?thesis .
qed

end
